(* ===== verification/Prelude.thy ===== *)
theory Prelude
  imports Complex_Main "HOL-Library.Multiset"
begin

text \<open>
  Shared vocabulary of the development: the Python exceptions that the post-processing
  script of \<^verbatim>\<open>src/python/Post_process_MF_binary_output_4Ibraheem.py\<close> can raise, the
  error-propagating bind used to sequence its statements, Python's indexing and dictionary
  lookup with their exceptions, the type names of the model, and generic lemmas on
  sums over integer ranges that the array theories share.
\<close>

section \<open>Exceptions and sequencing\<close>

text \<open>
  The exceptions reachable from the script. \<open>KeyError\<close> carries the missing key (a cell
  identifier), \<open>AxisError\<close> the axis that a numpy reduction was asked for. \<open>EmptyMean\<close>
  stands for numpy's \<open>mean\<close> over an axis of length 0, which numpy answers with NaN and a
  RuntimeWarning; NaN is not a real number, so the model makes it a distinguished result.
\<close>

datatype py_error = IndexError | KeyError int | ValueError | AxisError nat | EmptyMean

named_theorems model_simps "evaluation rules of the model's operations"

definition ebind :: "'e + 'a \<Rightarrow> ('a \<Rightarrow> 'e + 'b) \<Rightarrow> 'e + 'b" where
  "ebind m f = (case m of Inl e \<Rightarrow> Inl e | Inr a \<Rightarrow> f a)"

text \<open>Python's \<open>xs[i]\<close> for a non-negative index: \<open>IndexError\<close> past the end.\<close>

definition py_index :: "'a list \<Rightarrow> nat \<Rightarrow> py_error + 'a" where
  "py_index xs i = (if i < length xs then Inr (xs ! i) else Inl IndexError)"

text \<open>Python's \<open>d[k]\<close> on a dictionary with integer keys: \<open>KeyError k\<close> if absent.\<close>

definition dict_get :: "(int \<rightharpoonup> 'v) \<Rightarrow> int \<Rightarrow> py_error + 'v" where
  "dict_get d k = (case d k of None \<Rightarrow> Inl (KeyError k) | Some v \<Rightarrow> Inr v)"

section \<open>Types of the model\<close>

type_synonym cell_id = int
type_synonym flux = real
type_synonym kstpkper = "nat \<times> nat"
type_synonym flux_record = "cell_id \<times> flux"
type_synonym coord = "nat \<times> nat \<times> nat"

section \<open>Evaluation rules\<close>

lemma ebind_Inl [simp]: "ebind (Inl e) f = Inl e"
  by (simp add: ebind_def)

lemma ebind_Inr [simp]: "ebind (Inr a) f = f a"
  by (simp add: ebind_def)

lemma ebind_eq_Inr: "ebind m f = Inr b \<longleftrightarrow> (\<exists>a. m = Inr a \<and> f a = Inr b)"
  by (cases m) simp_all

lemma ebind_eq_Inl: "ebind m f = Inl e \<longleftrightarrow> m = Inl e \<or> (\<exists>a. m = Inr a \<and> f a = Inl e)"
  by (cases m) simp_all

lemma py_index_simps [simp, model_simps]:
  "py_index [] i = Inl IndexError"
  "py_index (x # xs) 0 = Inr x"
  "py_index (x # xs) (Suc i) = py_index xs i"
  by (simp_all add: py_index_def)

lemma dict_get_Some [simp, model_simps]: "d k = Some v \<Longrightarrow> dict_get d k = Inr v"
  by (simp add: dict_get_def)

lemma dict_get_None [simp, model_simps]: "d k = None \<Longrightarrow> dict_get d k = Inl (KeyError k)"
  by (simp add: dict_get_def)

section \<open>Sums over index ranges\<close>

text \<open>
  The arrays of the model are flat lists in row-major order; a range of flat positions
  splits into blocks of equal width. These are the list facts behind every
  reduction lemma.
\<close>

lemma upt_mult_blocks:
  "[0..<a * b] = concat (map (\<lambda>i. map (\<lambda>j. i * b + j) [0..<b]) [0..<a])"
proof (induction a)
  case 0
  then show ?case by simp
next
  case (Suc a)
  have "[0..<Suc a * b] = [0..<a * b] @ [a * b..<a * b + b]"
    using upt_add_eq_append [of 0 "a * b" b] by (simp add: add.commute)
  also have "[a * b..<a * b + b] = map (\<lambda>j. a * b + j) [0..<b]"
    using map_add_upt [of "a * b" b] by (simp add: add.commute)
  finally show ?case by (simp only: Suc.IH upt_Suc_append [of 0 a] zero_le map_append concat_append) simp
qed

lemma sum_list_concat_map:
  "sum_list (concat (map f xs)) = sum_list (map (\<lambda>x. sum_list (f x)) xs)"
  by (induction xs) simp_all

lemma nth_concat_blocks:
  assumes "\<forall>x \<in> set xs. length x = n" and "t < length xs" and "q < n"
  shows "concat xs ! (t * n + q) = xs ! t ! q"
  using assms
proof (induction xs arbitrary: t)
  case Nil
  then show ?case by simp
next
  case (Cons x xs)
  then have lx: "length x = n" by simp
  show ?case
  proof (cases t)
    case 0
    with Cons.prems lx show ?thesis by (simp add: nth_append)
  next
    case (Suc t')
    with Cons.prems have "concat xs ! (t' * n + q) = xs ! t' ! q"
      by (intro Cons.IH) auto
    moreover have "t * n + q = length x + (t' * n + q)"
      using lx Suc by simp
    ultimately show ?thesis using Suc by (simp only: concat.simps nth_append_length_plus nth_Cons_Suc)
  qed
qed

lemma length_concat_blocks:
  "\<forall>x \<in> set xs. length x = n \<Longrightarrow> length (concat xs) = length xs * n"
  by (induction xs) simp_all

lemma sum_list_update_add:
  fixes xs :: "'a::comm_monoid_add list"
  shows "k < length xs \<Longrightarrow> sum_list (xs[k := xs ! k + v]) = sum_list xs + v"
proof (induction xs arbitrary: k)
  case Nil
  then show ?case by simp
next
  case (Cons x xs)
  then show ?case by (cases k) (simp_all add: ac_simps)
qed

lemma sum_list_replicate_zero [simp]:
  "sum_list (replicate n (0::'a::monoid_add)) = 0"
  by (induction n) simp_all

lemma list_all2_all_right:
  "list_all2 P xs ys \<Longrightarrow> (\<And>x y. P x y \<Longrightarrow> Q y) \<Longrightarrow> list_all Q ys"
  by (induction rule: list_all2_induct) auto


lemma list_all2_choice:
  "\<forall>x \<in> set xs. \<exists>z. P x z \<Longrightarrow> \<exists>zs. list_all2 P xs zs"
proof (induction xs)
  case Nil
  then show ?case by simp
next
  case (Cons x xs)
  then obtain z zs where "P x z" and "list_all2 P xs zs" by auto
  then have "list_all2 P (x # xs) (z # zs)" by simp
  then show ?case by blast
qed

lemma list_all2_ex_right:
  "list_all2 P xs ys \<Longrightarrow> x \<in> set xs \<Longrightarrow> \<exists>y. P x y"
  by (induction xs ys rule: list_all2_induct) auto

lemma sum_list_upt_indicator:
  "sum_list (map (\<lambda>i. if c = int i then f else 0) [0..<n]) = (if 0 \<le> c \<and> c < int n then f else (0::'a::comm_monoid_add))"
proof (cases "0 \<le> c")
  case True
  then have "(\<lambda>i. if c = int i then f else 0) = (\<lambda>i. if i = nat c then f else 0)" by auto
  then show ?thesis using True by (simp add: interv_sum_list_conv_sum_set_nat nat_less_iff)
next
  case False
  then have "(\<lambda>i::nat. if c = int i then f else 0) = (\<lambda>i. 0)" by auto
  then show ?thesis using False by simp
qed


lemma block_decomp:
  assumes "i < R * C"
  shows "i div C < R" and "i mod C < C" and "(i div C) * C + i mod C = (i::nat)"
proof -
  from assms have C: "0 < C" by (cases "C = 0") simp_all
  show "i div C < R" using assms by (rule less_mult_imp_div_less)
  show "i mod C < C" using C by simp
  show "(i div C) * C + i mod C = i" by simp
qed


lemma sum_list_map_swap:
  fixes f :: "'a \<Rightarrow> 'b \<Rightarrow> 'c::comm_monoid_add"
  shows "sum_list (map (\<lambda>i. sum_list (map (\<lambda>j. f i j) ys)) xs) =
         sum_list (map (\<lambda>j. sum_list (map (\<lambda>i. f i j) xs)) ys)"
  by (induction xs) (simp_all add: sum_list_addf)

lemma map_nth_upt_slice:
  "map (\<lambda>t. f (xs ! t)) [min a (length xs)..<min b (length xs)] = map f (drop a (take b xs))"
proof (rule nth_equalityI)
  show "length (map (\<lambda>t. f (xs ! t)) [min a (length xs)..<min b (length xs)]) = length (map f (drop a (take b xs)))"
    by simp
next
  fix i assume "i < length (map (\<lambda>t. f (xs ! t)) [min a (length xs)..<min b (length xs)])"
  then have i: "a + i < min b (length xs)" by (simp add: min_def split: if_splits)
  then have a: "min a (length xs) = a" by simp
  have u: "[a..<min b (length xs)] ! i = a + i" using i by (rule nth_upt)
  have l: "i < length [a..<min b (length xs)]" using i by (simp only: length_upt)
  have "map (\<lambda>t. f (xs ! t)) [min a (length xs)..<min b (length xs)] ! i = f (xs ! (a + i))"
    unfolding a nth_map [OF l] u ..
  moreover have l2: "i < length (drop a (take b xs))" using i by (auto simp: min_def split: if_split_asm)
  then have "map f (drop a (take b xs)) ! i = f (xs ! (a + i))"
    using i by (simp add: nth_map [OF l2])
  ultimately show "map (\<lambda>t. f (xs ! t)) [min a (length xs)..<min b (length xs)] ! i = map f (drop a (take b xs)) ! i"
    by simp
qed


lemma concat_blocks_take_drop:
  assumes "length xs = T * N"
  shows "concat (map (\<lambda>t. take N (drop (t * N) xs)) [0..<T]) = xs"
proof (rule nth_equalityI)
  have blocks: "\<forall>x \<in> set (map (\<lambda>t. take N (drop (t * N) xs)) [0..<T]). length x = N"
  proof
    fix x assume "x \<in> set (map (\<lambda>t. take N (drop (t * N) xs)) [0..<T])"
    then obtain t where t: "t < T" and x: "x = take N (drop (t * N) xs)" by auto
    have "t * N + N \<le> T * N" using t by (metis add.commute mult_Suc Suc_leI mult_le_mono1)
    with assms x show "length x = N" by simp
  qed
  then show len: "length (concat (map (\<lambda>t. take N (drop (t * N) xs)) [0..<T])) = length xs"
    using length_concat_blocks [OF blocks] assms by simp
  fix n assume "n < length (concat (map (\<lambda>t. take N (drop (t * N) xs)) [0..<T]))"
  with len assms have n: "n < T * N" by simp
  then have N: "0 < N" by (cases N) simp_all
  have q: "n div N < T" using n by (simp add: less_mult_imp_div_less)
  have "concat (map (\<lambda>t. take N (drop (t * N) xs)) [0..<T]) ! (n div N * N + n mod N) =
        map (\<lambda>t. take N (drop (t * N) xs)) [0..<T] ! (n div N) ! (n mod N)"
    using blocks q N by (intro nth_concat_blocks) simp_all
  also have "\<dots> = xs ! (n div N * N + n mod N)"
  proof -
    have le: "n div N * N \<le> length xs" using n assms by (metis div_times_less_eq_dividend le_trans less_imp_le)
    show ?thesis using q N by (simp add: nth_drop [OF le])
  qed
  finally show "concat (map (\<lambda>t. take N (drop (t * N) xs)) [0..<T]) ! n = xs ! n" by simp
qed

end
