(* ===== verification/NdArray.thy ===== *)
theory NdArray
  imports Prelude
begin

text \<open>
  The numpy arrays of the script. A numpy \<open>ndarray\<close> in C order is a shape and one flat
  buffer in which the element at multi-index \<open>[i\<^sub>0, \<dots>, i\<^sub>k]\<close> sits at the
  row-major offset \<open>nd_offset\<close>. This theory models that representation and the numpy
  operations the script calls, each with the exceptions numpy raises:
  \<open>np.arange\<close>, \<open>reshape\<close>, \<open>==\<close> against a scalar, \<open>np.argwhere\<close>,
  \<open>np.zeros\<close>, \<open>a[idx] += v\<close>, \<open>np.array\<close> of a list of equal-shape arrays,
  \<open>sum()\<close>, \<open>sum(axis=k)\<close>, \<open>mean(axis=k)\<close>, the slice \<open>a[lo:hi]\<close>, and
  integer indexing of one axis. The lemmas give the round trip between flat offsets and
  multi-indices, the C order of the index enumeration, well-formedness of every result, the
  grand total of a stack and of an update, and the elements of reductions and slices.
\<close>

section \<open>Arrays and row-major offsets\<close>

record 'a ndarray =
  nd_shape :: "nat list"
  nd_data :: "'a list"

definition nd_wf :: "'a ndarray \<Rightarrow> bool" where
  "nd_wf a \<longleftrightarrow> length (nd_data a) = prod_list (nd_shape a)"

text \<open>Row-major (C order) offset of a multi-index, and its inverse \<open>np.unravel_index\<close>.\<close>

fun nd_offset :: "nat list \<Rightarrow> nat list \<Rightarrow> nat" where
  "nd_offset (d # ds) (i # is) = i * prod_list ds + nd_offset ds is"
| "nd_offset _ _ = 0"

fun nd_unravel :: "nat list \<Rightarrow> nat \<Rightarrow> nat list" where
  "nd_unravel [] n = []"
| "nd_unravel (d # ds) n = n div prod_list ds # nd_unravel ds (n mod prod_list ds)"

definition nd_valid_index :: "nat list \<Rightarrow> nat list \<Rightarrow> bool" where
  "nd_valid_index sh idx \<longleftrightarrow> list_all2 (<) idx sh"

text \<open>All multi-indices of a shape in C order, the order of numpy's iteration.\<close>

fun nd_indices :: "nat list \<Rightarrow> nat list list" where
  "nd_indices [] = [[]]"
| "nd_indices (d # ds) = concat (map (\<lambda>i. map ((#) i) (nd_indices ds)) [0..<d])"

definition nd_get :: "'a ndarray \<Rightarrow> nat list \<Rightarrow> 'a" where
  "nd_get a idx = nd_data a ! nd_offset (nd_shape a) idx"

section \<open>The numpy operations of the script\<close>

text \<open>\<open>np.arange(start, stop)\<close> on Python ints: a 1-d array of \<open>start, \<dots>, stop - 1\<close>.\<close>

definition np_arange :: "int \<Rightarrow> int \<Rightarrow> int ndarray" where
  "np_arange start stop = \<lparr>nd_shape = [nat (stop - start)], nd_data = [start..stop - 1]\<rparr>"

text \<open>\<open>a.reshape(sh)\<close>: the same buffer under a new shape; ValueError if the sizes differ.\<close>

definition np_reshape :: "'a ndarray \<Rightarrow> nat list \<Rightarrow> py_error + 'a ndarray" where
  "np_reshape a sh =
     (if prod_list sh = length (nd_data a)
      then Inr \<lparr>nd_shape = sh, nd_data = nd_data a\<rparr> else Inl ValueError)"

text \<open>\<open>a == v\<close> for a scalar \<open>v\<close>: the elementwise comparison.\<close>

definition np_eq :: "'a ndarray \<Rightarrow> 'a \<Rightarrow> bool ndarray" where
  "np_eq a v = \<lparr>nd_shape = nd_shape a, nd_data = map (\<lambda>x. x = v) (nd_data a)\<rparr>"

text \<open>
  \<open>np.argwhere(b)\<close>: the multi-indices of the true elements of \<open>b\<close>, in C order (the
  rows of the returned array).
\<close>

definition np_argwhere :: "bool ndarray \<Rightarrow> nat list list" where
  "np_argwhere b = filter (nd_get b) (nd_indices (nd_shape b))"

definition np_zeros :: "nat list \<Rightarrow> 'a::zero ndarray" where
  "np_zeros sh = \<lparr>nd_shape = sh, nd_data = replicate (prod_list sh) 0\<rparr>"

text \<open>
  \<open>a[i\<^sub>0, \<dots>, i\<^sub>k] += v\<close> with one non-negative index per axis; IndexError when
  an index is out of bounds or the number of indices is not the number of axes (the script
  always passes three indices to a three-dimensional array).
\<close>

definition nd_iadd :: "'a::plus ndarray \<Rightarrow> nat list \<Rightarrow> 'a \<Rightarrow> py_error + 'a ndarray" where
  "nd_iadd a idx v =
     (if nd_valid_index (nd_shape a) idx
      then (let k = nd_offset (nd_shape a) idx
            in Inr (a\<lparr>nd_data := (nd_data a)[k := nd_data a ! k + v]\<rparr>))
      else Inl IndexError)"

text \<open>
  \<open>np.array(xs)\<close> for a list of arrays: an empty list gives the 1-d array of shape
  \<open>(0,)\<close>; equal shapes stack along a new leading axis; unequal shapes are ragged, which
  numpy rejects with ValueError.
\<close>

definition np_stack :: "'a ndarray list \<Rightarrow> py_error + 'a ndarray" where
  "np_stack xs =
     (case xs of
        [] \<Rightarrow> Inr \<lparr>nd_shape = [0], nd_data = []\<rparr>
      | a # _ \<Rightarrow>
          (if list_all (\<lambda>b. nd_shape b = nd_shape a) xs
           then Inr \<lparr>nd_shape = length xs # nd_shape a, nd_data = concat (map nd_data xs)\<rparr>
           else Inl ValueError))"

definition np_sum :: "'a::comm_monoid_add ndarray \<Rightarrow> 'a" where
  "np_sum a = sum_list (nd_data a)"

text \<open>
  Axis \<open>k\<close> of a shape splits the buffer into \<open>outer\<close> blocks (the product of the
  axes before \<open>k\<close>), each of \<open>sh ! k\<close> slabs of \<open>inner\<close> elements (the product of
  the axes after \<open>k\<close>). \<open>nd_axis_elem a k b j i\<close> is the element at outer block \<open>b\<close>,
  position \<open>j\<close> on axis \<open>k\<close>, inner offset \<open>i\<close>.
\<close>

definition nd_outer :: "nat list \<Rightarrow> nat \<Rightarrow> nat" where
  "nd_outer sh k = prod_list (take k sh)"

definition nd_inner :: "nat list \<Rightarrow> nat \<Rightarrow> nat" where
  "nd_inner sh k = prod_list (drop (Suc k) sh)"

definition nd_drop_axis :: "nat list \<Rightarrow> nat \<Rightarrow> nat list" where
  "nd_drop_axis sh k = take k sh @ drop (Suc k) sh"

definition nd_axis_elem :: "'a ndarray \<Rightarrow> nat \<Rightarrow> nat \<Rightarrow> nat \<Rightarrow> nat \<Rightarrow> 'a" where
  "nd_axis_elem a k b j i =
     nd_data a ! ((b * (nd_shape a ! k) + j) * nd_inner (nd_shape a) k + i)"

definition nd_over_axis :: "'a ndarray \<Rightarrow> nat \<Rightarrow> (nat \<Rightarrow> nat \<Rightarrow> 'b) \<Rightarrow> 'b ndarray" where
  "nd_over_axis a k g =
     \<lparr>nd_shape = nd_drop_axis (nd_shape a) k,
      nd_data = concat (map (\<lambda>b. map (g b) [0..<nd_inner (nd_shape a) k])
                              [0..<nd_outer (nd_shape a) k])\<rparr>"

text \<open>\<open>a.sum(axis=k)\<close>: AxisError when the array has no axis \<open>k\<close>.\<close>

definition np_sum_axis :: "'a::comm_monoid_add ndarray \<Rightarrow> nat \<Rightarrow> py_error + 'a ndarray" where
  "np_sum_axis a k =
     (if k < length (nd_shape a)
      then Inr (nd_over_axis a k
                 (\<lambda>b i. sum_list (map (\<lambda>j. nd_axis_elem a k b j i) [0..<nd_shape a ! k])))
      else Inl (AxisError k))"

text \<open>
  \<open>a.mean(axis=k)\<close>: the sum along the axis divided by its length; over an axis of
  length 0 numpy returns NaN, here \<open>EmptyMean\<close>.
\<close>

definition np_mean_axis :: "real ndarray \<Rightarrow> nat \<Rightarrow> py_error + real ndarray" where
  "np_mean_axis a k =
     ebind (np_sum_axis a k)
       (\<lambda>s. if nd_shape a ! k = 0 then Inl EmptyMean
            else Inr (s\<lparr>nd_data := map (\<lambda>x. x / real (nd_shape a ! k)) (nd_data s)\<rparr>))"

text \<open>Integer index \<open>j\<close> on axis \<open>k\<close> (\<open>a[:, j]\<close> for \<open>k = 1\<close>), which drops the axis.\<close>

definition np_take_axis :: "'a ndarray \<Rightarrow> nat \<Rightarrow> nat \<Rightarrow> py_error + 'a ndarray" where
  "np_take_axis a k j =
     (if k < length (nd_shape a) \<and> j < nd_shape a ! k
      then Inr (nd_over_axis a k (\<lambda>b i. nd_axis_elem a k b j i))
      else Inl IndexError)"

text \<open>
  The basic slice \<open>a[lo:hi]\<close> on the first axis with non-negative bounds: Python clamps both
  bounds to the axis length and an empty range gives an empty array.
\<close>

definition np_slice0 :: "'a ndarray \<Rightarrow> nat \<Rightarrow> nat \<Rightarrow> py_error + 'a ndarray" where
  "np_slice0 a lo hi =
     (case nd_shape a of
        [] \<Rightarrow> Inl IndexError
      | n # rest \<Rightarrow>
          (let s = min lo n; m = min hi n - s; w = prod_list rest
           in Inr \<lparr>nd_shape = m # rest, nd_data = take (m * w) (drop (s * w) (nd_data a))\<rparr>))"

section \<open>Offsets and multi-indices\<close>

lemma nd_valid_index_Nil [simp]: "nd_valid_index [] idx \<longleftrightarrow> idx = []"
  by (simp add: nd_valid_index_def)

lemma nd_valid_index_Cons [simp]:
  "nd_valid_index (d # ds) idx \<longleftrightarrow> (\<exists>i is. idx = i # is \<and> i < d \<and> nd_valid_index ds is)"
  by (cases idx) (simp_all add: nd_valid_index_def)

lemma mult_block_less:
  fixes i d p r :: nat
  assumes "i < d" and "r < p"
  shows "i * p + r < d * p"
proof -
  have "i * p + r < Suc i * p" using assms(2) by simp
  also have "\<dots> \<le> d * p" using assms(1) by (intro mult_le_mono1) simp
  finally show ?thesis .
qed

lemma nd_offset_bound: "nd_valid_index sh idx \<Longrightarrow> nd_offset sh idx < prod_list sh"
proof (induction sh arbitrary: idx)
  case Nil
  then show ?case by simp
next
  case (Cons d ds)
  then obtain i "is" where idx: "idx = i # is" "i < d" "nd_valid_index ds is" by auto
  with Cons.IH have "nd_offset ds is < prod_list ds" by blast
  with idx show ?case by (simp add: mult_block_less)
qed

lemma nd_unravel_valid: "n < prod_list sh \<Longrightarrow> nd_valid_index sh (nd_unravel sh n)"
proof (induction sh arbitrary: n)
  case Nil
  then show ?case by simp
next
  case (Cons d ds)
  then have "n < d * prod_list ds" by simp
  then have "n div prod_list ds < d" and "0 < prod_list ds"
    by (auto intro: less_mult_imp_div_less gr0I)
  with Cons.IH show ?case by simp
qed

lemma nd_offset_unravel: "n < prod_list sh \<Longrightarrow> nd_offset sh (nd_unravel sh n) = n"
proof (induction sh arbitrary: n)
  case Nil
  then show ?case by simp
next
  case (Cons d ds)
  then have "0 < prod_list ds" by (auto intro: gr0I)
  with Cons.IH show ?case by simp
qed

lemma nd_unravel_offset: "nd_valid_index sh idx \<Longrightarrow> nd_unravel sh (nd_offset sh idx) = idx"
proof (induction sh arbitrary: idx)
  case Nil
  then show ?case by simp
next
  case (Cons d ds)
  then obtain i "is" where idx: "idx = i # is" "nd_valid_index ds is" by auto
  with Cons.IH have ih: "nd_unravel ds (nd_offset ds is) = is" by blast
  from idx have lt: "nd_offset ds is < prod_list ds" by (simp add: nd_offset_bound)
  then have "(i * prod_list ds + nd_offset ds is) div prod_list ds = i"
    and "(i * prod_list ds + nd_offset ds is) mod prod_list ds = nd_offset ds is"
    by simp_all
  with idx ih show ?case by simp
qed

text \<open>The C-order enumeration of multi-indices is the unravelling of the flat offsets.\<close>

lemma nd_indices_unravel: "nd_indices sh = map (nd_unravel sh) [0..<prod_list sh]"
proof (induction sh)
  case Nil
  then show ?case by simp
next
  case (Cons d ds)
  let ?p = "prod_list ds"
  have blk: "map (nd_unravel (d # ds)) (map (\<lambda>j. i * ?p + j) [0..<?p]) =
             map ((#) i) (map (nd_unravel ds) [0..<?p])" for i
    by (auto simp: gr0I)
  have "map (nd_unravel (d # ds)) [0..<prod_list (d # ds)] =
        concat (map (\<lambda>i. map (nd_unravel (d # ds)) (map (\<lambda>j. i * ?p + j) [0..<?p])) [0..<d])"
    by (simp add: upt_mult_blocks map_concat comp_def)
  also have "\<dots> = nd_indices (d # ds)"
    by (simp only: blk Cons.IH nd_indices.simps)
  finally show ?case by (rule sym)
qed

section \<open>Search by \<open>argwhere\<close>\<close>

text \<open>
  \<open>np.argwhere(a == v)\<close> on a well-formed array unravels, in increasing order, the flat
  positions that hold \<open>v\<close>: the search over all multi-indices finds exactly those.
\<close>

lemma np_argwhere_eq:
  assumes "nd_wf a"
  shows "np_argwhere (np_eq a v) =
         map (nd_unravel (nd_shape a)) (filter (\<lambda>n. nd_data a ! n = v) [0..<length (nd_data a)])"
proof -
  have "np_argwhere (np_eq a v) =
        filter (nd_get (np_eq a v)) (map (nd_unravel (nd_shape a)) [0..<prod_list (nd_shape a)])"
    by (simp add: np_argwhere_def np_eq_def nd_indices_unravel)
  also have "\<dots> = map (nd_unravel (nd_shape a))
                      (filter (nd_get (np_eq a v) \<circ> nd_unravel (nd_shape a)) [0..<prod_list (nd_shape a)])"
    by (simp add: filter_map)
  also have "filter (nd_get (np_eq a v) \<circ> nd_unravel (nd_shape a)) [0..<prod_list (nd_shape a)] =
             filter (\<lambda>n. nd_data a ! n = v) [0..<prod_list (nd_shape a)]"
    using assms by (intro filter_cong) (auto simp: nd_get_def np_eq_def nd_offset_unravel nd_wf_def)
  finally show ?thesis using assms by (simp add: nd_wf_def)
qed

section \<open>Well-formedness of every result\<close>

lemma nd_wf_np_arange [simp]: "nd_wf (np_arange start stop)"
  by (simp add: nd_wf_def np_arange_def)

lemma nd_wf_np_reshape: "np_reshape a sh = Inr b \<Longrightarrow> nd_wf b \<and> nd_data b = nd_data a"
  by (auto simp: np_reshape_def nd_wf_def split: if_splits)

lemma nd_wf_np_eq [simp]: "nd_wf (np_eq a v) \<longleftrightarrow> nd_wf a"
  by (simp add: nd_wf_def np_eq_def)

lemma nd_wf_np_zeros [simp]: "nd_wf (np_zeros sh)"
  by (simp add: nd_wf_def np_zeros_def)

lemma nd_iadd_Inr:
  assumes "nd_iadd a idx v = Inr b"
  shows "nd_shape b = nd_shape a" and "nd_valid_index (nd_shape a) idx"
    and "nd_data b = (nd_data a)[nd_offset (nd_shape a) idx := nd_data a ! nd_offset (nd_shape a) idx + v]"
  using assms by (auto simp: nd_iadd_def Let_def split: if_splits)

lemma nd_wf_nd_iadd: "nd_wf a \<Longrightarrow> nd_iadd a idx v = Inr b \<Longrightarrow> nd_wf b"
  by (simp add: nd_wf_def nd_iadd_Inr)

lemma prod_list_drop_axis:
  "prod_list (nd_drop_axis sh k) = nd_outer sh k * nd_inner sh k"
  by (simp add: nd_drop_axis_def nd_outer_def nd_inner_def)

lemma length_nd_over_axis:
  "length (nd_data (nd_over_axis a k g)) = nd_outer (nd_shape a) k * nd_inner (nd_shape a) k"
  by (simp add: nd_over_axis_def length_concat comp_def sum_list_triv)

lemma nd_shape_nd_over_axis [simp]: "nd_shape (nd_over_axis a k g) = nd_drop_axis (nd_shape a) k"
  by (simp add: nd_over_axis_def)

lemma nd_wf_nd_over_axis [simp]: "nd_wf (nd_over_axis a k g)"
  by (simp add: nd_wf_def length_nd_over_axis prod_list_drop_axis)

lemma nd_wf_np_sum_axis: "np_sum_axis a k = Inr s \<Longrightarrow> nd_wf s"
  by (auto simp: np_sum_axis_def split: if_splits)

lemma nd_wf_np_take_axis: "np_take_axis a k j = Inr s \<Longrightarrow> nd_wf s"
  by (auto simp: np_take_axis_def split: if_splits)

lemma nd_wf_np_mean_axis: "np_mean_axis a k = Inr s \<Longrightarrow> nd_wf s"
  by (auto simp: np_mean_axis_def ebind_eq_Inr nd_wf_def dest: nd_wf_np_sum_axis split: if_splits)

lemma nd_wf_np_slice0: "nd_wf a \<Longrightarrow> np_slice0 a lo hi = Inr s \<Longrightarrow> nd_wf s"
proof (cases "nd_shape a")
  case Nil
  moreover assume "np_slice0 a lo hi = Inr s"
  ultimately show ?thesis by (simp add: np_slice0_def)
next
  case (Cons n rest)
  assume wf: "nd_wf a" and sl: "np_slice0 a lo hi = Inr s"
  let ?s = "min lo n" and ?m = "min hi n - min lo n" and ?w = "prod_list rest"
  have "?s + ?m \<le> n" by simp
  then have "?s * ?w + ?m * ?w \<le> n * ?w" by (metis add_mult_distrib mult_le_mono1)
  with wf Cons have "length (take (?m * ?w) (drop (?s * ?w) (nd_data a))) = ?m * ?w"
    by (simp add: nd_wf_def)
  with sl Cons show ?thesis by (auto simp: np_slice0_def nd_wf_def Let_def)
qed

lemma nd_wf_np_stack:
  assumes "list_all nd_wf xs" and "np_stack xs = Inr b"
  shows "nd_wf b"
proof (cases xs)
  case Nil
  with assms show ?thesis by (auto simp: np_stack_def nd_wf_def)
next
  case (Cons a rest)
  with assms(2) have sh: "list_all (\<lambda>c. nd_shape c = nd_shape a) xs"
    and b: "b = \<lparr>nd_shape = length xs # nd_shape a, nd_data = concat (map nd_data xs)\<rparr>"
    by (auto simp: np_stack_def split: if_splits)
  from sh assms(1) have "\<forall>x \<in> set (map nd_data xs). length x = prod_list (nd_shape a)"
    by (auto simp: list_all_iff nd_wf_def)
  then have "length (concat (map nd_data xs)) = length xs * prod_list (nd_shape a)"
    using length_concat_blocks [of "map nd_data xs"] by simp
  with b show ?thesis by (simp add: nd_wf_def)
qed

section \<open>Elements of the results\<close>

lemma nd_over_axis_nth:
  assumes "b < nd_outer (nd_shape a) k" and "i < nd_inner (nd_shape a) k"
  shows "nd_data (nd_over_axis a k g) ! (b * nd_inner (nd_shape a) k + i) = g b i"
proof -
  let ?xs = "map (\<lambda>b. map (g b) [0..<nd_inner (nd_shape a) k]) [0..<nd_outer (nd_shape a) k]"
  have "\<forall>x \<in> set ?xs. length x = nd_inner (nd_shape a) k" by auto
  then have "concat ?xs ! (b * nd_inner (nd_shape a) k + i) = ?xs ! b ! i"
    using assms by (intro nth_concat_blocks) auto
  with assms show ?thesis by (simp add: nd_over_axis_def)
qed

lemma np_stack_Inr:
  assumes "np_stack (a # rest) = Inr s"
  shows "nd_shape s = Suc (length rest) # nd_shape a"
    and "nd_data s = concat (map nd_data (a # rest))"
    and "list_all (\<lambda>c. nd_shape c = nd_shape a) (a # rest)"
  using assms by (auto simp: np_stack_def split: if_splits)

lemma np_stack_nth:
  assumes "list_all nd_wf xs" and "np_stack xs = Inr s" and "t < length xs"
    and "q < prod_list (nd_shape (xs ! 0))"
  shows "nd_data s ! (t * prod_list (nd_shape (xs ! 0)) + q) = nd_data (xs ! t) ! q"
proof (cases xs)
  case Nil
  with assms show ?thesis by simp
next
  case (Cons a rest)
  then have x0: "xs ! 0 = a" by simp
  from assms(2) have ds: "nd_data s = concat (map nd_data xs)"
    and sh: "list_all (\<lambda>c. nd_shape c = nd_shape a) xs"
    unfolding Cons by (rule np_stack_Inr(2), rule np_stack_Inr(3))
  from sh assms(1) have "\<forall>x \<in> set (map nd_data xs). length x = prod_list (nd_shape a)"
    by (auto simp: list_all_iff nd_wf_def)
  then have "concat (map nd_data xs) ! (t * prod_list (nd_shape a) + q) = map nd_data xs ! t ! q"
    using assms(3,4) x0 by (intro nth_concat_blocks) simp_all
  then show ?thesis using ds x0 assms(3) by simp
qed

section \<open>Grand totals\<close>

lemma np_sum_np_stack:
  "np_stack xs = Inr s \<Longrightarrow> np_sum s = sum_list (map np_sum xs)"
  unfolding np_sum_def
  by (cases xs) (auto simp: np_stack_def sum_list_concat_map comp_def split: if_splits)

lemma np_sum_nd_iadd:
  "nd_wf a \<Longrightarrow> nd_iadd a idx v = Inr b \<Longrightarrow> np_sum b = np_sum a + v"
  by (simp add: np_sum_def nd_iadd_Inr nd_wf_def nd_offset_bound sum_list_update_add)

lemma np_sum_np_zeros [simp]: "np_sum (np_zeros sh) = 0"
  by (simp add: np_sum_def np_zeros_def)

section \<open>Elements of reductions, selections and slices\<close>

lemma np_slice0_Cons:
  "nd_shape a = n # rest \<Longrightarrow>
   np_slice0 a lo hi =
     Inr \<lparr>nd_shape = (min hi n - min lo n) # rest,
          nd_data = take ((min hi n - min lo n) * prod_list rest)
                      (drop (min lo n * prod_list rest) (nd_data a))\<rparr>"
  by (simp add: np_slice0_def Let_def)

lemma take_drop_blocks_nth:
  assumes "t < m" and "q < w" and "(s + m) * w \<le> length xs"
  shows "take (m * w) (drop (s * w) xs) ! (t * w + q) = xs ! ((s + t) * w + q)"
proof -
  have lt: "t * w + q < m * w" using assms(1,2) by (rule mult_block_less)
  have "s * w \<le> length xs" using assms(3) by (meson le_add1 mult_le_mono1 order_trans)
  with lt have "take (m * w) (drop (s * w) xs) ! (t * w + q) = xs ! (s * w + (t * w + q))"
    by (simp add: nth_drop)
  then show ?thesis by (simp add: algebra_simps)
qed

lemma slice0_fits:
  assumes "nd_wf a" and "nd_shape a = n # rest"
  shows "(min lo n + (min hi n - min lo n)) * prod_list rest \<le> length (nd_data a)"
proof -
  have "min lo n + (min hi n - min lo n) \<le> n" by simp
  then have "(min lo n + (min hi n - min lo n)) * prod_list rest \<le> n * prod_list rest"
    by (rule mult_le_mono1)
  with assms show ?thesis by (simp add: nd_wf_def)
qed


lemma np_stack_slabs:
  assumes "nd_wf X" and "nd_shape X = T # sh" and "0 < T"
  shows "np_stack (map (\<lambda>t. \<lparr>nd_shape = sh, nd_data = take (prod_list sh) (drop (t * prod_list sh) (nd_data X))\<rparr>)
           [0..<T]) = Inr X"
proof -
  have d: "concat (map (\<lambda>t. take (prod_list sh) (drop (t * prod_list sh) (nd_data X))) [0..<T]) = nd_data X"
    using assms(1,2) by (intro concat_blocks_take_drop) (simp add: nd_wf_def)
  obtain T' where T: "T = Suc T'" using assms(3) by (cases T) simp_all
  show ?thesis
    using d assms(2) by (simp add: np_stack_def T upt_conv_Cons comp_def list_all_iff del: upt_Suc)
qed


lemma np_take_axis0_np_stack:
  assumes wf: "list_all nd_wf xs" and st: "np_stack xs = Inr s" and t: "t < length xs"
    and sh: "list_all (\<lambda>b. nd_shape b = sh) xs"
  shows "np_take_axis s 0 t = Inr (xs ! t)"
proof -
  obtain a rest where xs: "xs = a # rest" using t by (cases xs) simp_all
  have sha: "nd_shape a = sh" using sh xs by simp
  have shs: "nd_shape s = length xs # sh" using np_stack_Inr(1) [of a rest s] st xs sha by simp
  have sht: "nd_shape (xs ! t) = sh" using sh t by (simp add: list_all_iff)
  have lent: "length (nd_data (xs ! t)) = prod_list sh" using wf t sht by (simp add: list_all_iff nd_wf_def)
  have "map (nd_axis_elem s 0 0 t) [0..<prod_list sh] = nd_data (xs ! t)"
  proof (rule nth_equalityI)
    show "length (map (nd_axis_elem s 0 0 t) [0..<prod_list sh]) = length (nd_data (xs ! t))" by (simp add: lent)
    fix i assume "i < length (map (nd_axis_elem s 0 0 t) [0..<prod_list sh])"
    then have i: "i < prod_list sh" by simp
    have "nd_data s ! (t * prod_list (nd_shape (xs ! 0)) + i) = nd_data (xs ! t) ! i"
      using np_stack_nth [OF wf st t] i xs sha by simp
    then show "map (nd_axis_elem s 0 0 t) [0..<prod_list sh] ! i = nd_data (xs ! t) ! i"
      using i xs sha by (simp add: nd_axis_elem_def shs nd_inner_def)
  qed
  with t sht shs show ?thesis
    by (simp add: np_take_axis_def nd_over_axis_def nd_outer_def nd_inner_def nd_drop_axis_def)
qed

end
