(* ===== verification/CoordinateIndex.thy ===== *)
theory CoordinateIndex
  imports NdArray
begin

text \<open>
  The lookup table of lines 29--39 of the script. It builds \<open>cell_list = np.arange(0,
  L*R*C)\<close>, reshapes it to \<open>(L, R, C)\<close> (the script's grid is \<open>(2, 102, 217)\<close>), and
  for every value \<open>val\<close> searches the whole array with \<open>np.argwhere(cell_list_arr ==
  val)[0]\<close>, storing \<open>id_dict[val] = (lay, row, col)\<close>. The abstract specification is
  the arithmetic decomposition \<open>resolve\<close> of the spec (section 4.1) with its inverse
  \<open>flatten\<close>. The main theorem says that the search-built dictionary is exactly
  \<open>resolve\<close> on \<open>[0, L*R*C)\<close> and undefined elsewhere, so a lookup either gives
  \<open>resolve\<close> or raises KeyError.
\<close>

section \<open>The dictionary built by search\<close>

text \<open>
  The loop \<open>for val in cell_list\<close>: \<open>address = np.argwhere(cell_list_arr == val)[0]\<close>
  (IndexError when the search finds nothing), then \<open>lay, row, col = address[0],
  address[1], address[2]\<close> and \<open>id_dict.update({val: (lay, row, col)})\<close>.
\<close>

fun id_dict_loop :: "int ndarray \<Rightarrow> int list \<Rightarrow> (int \<rightharpoonup> coord) \<Rightarrow> py_error + (int \<rightharpoonup> coord)" where
  "id_dict_loop arr [] d = Inr d"
| "id_dict_loop arr (val # vals) d =
     ebind (py_index (np_argwhere (np_eq arr val)) 0) (\<lambda>address.
     ebind (py_index address 0) (\<lambda>lay.
     ebind (py_index address 1) (\<lambda>row.
     ebind (py_index address 2) (\<lambda>col.
       id_dict_loop arr vals (d(val \<mapsto> (lay, row, col)))))))"

definition build_id_dict :: "nat \<Rightarrow> nat \<Rightarrow> nat \<Rightarrow> py_error + (int \<rightharpoonup> coord)" where
  "build_id_dict L R C =
     (let cell_list = np_arange 0 (int (L * R * C))
      in ebind (np_reshape cell_list [L, R, C])
           (\<lambda>cell_list_arr. id_dict_loop cell_list_arr (nd_data cell_list) Map.empty))"

section \<open>The abstract specification: arithmetic decomposition\<close>

definition resolve :: "nat \<Rightarrow> nat \<Rightarrow> nat \<Rightarrow> coord" where
  "resolve R C n = (let rem = n mod (R * C) in (n div (R * C), rem div C, rem mod C))"

definition flatten :: "nat \<Rightarrow> nat \<Rightarrow> coord \<Rightarrow> nat" where
  "flatten R C x = (case x of (l, r, c) \<Rightarrow> l * (R * C) + r * C + c)"

definition in_grid :: "nat \<Rightarrow> nat \<Rightarrow> nat \<Rightarrow> coord \<Rightarrow> bool" where
  "in_grid L R C x = (case x of (l, r, c) \<Rightarrow> l < L \<and> r < R \<and> c < C)"

definition id_dict_spec :: "nat \<Rightarrow> nat \<Rightarrow> nat \<Rightarrow> int \<rightharpoonup> coord" where
  "id_dict_spec L R C v = (if 0 \<le> v \<and> v < int (L * R * C) then Some (resolve R C (nat v)) else None)"

section \<open>Decomposition and flattening\<close>

lemma resolve_is_unravel: "nd_unravel [L, R, C] n = (case resolve R C n of (l, r, c) \<Rightarrow> [l, r, c])"
  by (simp add: resolve_def Let_def)

lemma flatten_is_offset: "nd_offset [L, R, C] [l, r, c] = flatten R C (l, r, c)"
  by (simp add: flatten_def)

lemma in_grid_valid_index: "in_grid L R C (l, r, c) \<longleftrightarrow> nd_valid_index [L, R, C] [l, r, c]"
  by (simp add: in_grid_def)

lemma flatten_resolve [simp]: "flatten R C (resolve R C n) = n"
proof -
  have "flatten R C (resolve R C n) =
        n div (R * C) * (R * C) + (n mod (R * C) div C * C + n mod (R * C) mod C)"
    by (simp add: resolve_def flatten_def Let_def)
  also have "\<dots> = n div (R * C) * (R * C) + n mod (R * C)"
    by (simp only: div_mult_mod_eq)
  also have "\<dots> = n"
    by (rule div_mult_mod_eq)
  finally show ?thesis .
qed

lemma resolve_in_grid: "n < L * R * C \<Longrightarrow> in_grid L R C (resolve R C n)"
  using nd_unravel_valid [of n "[L, R, C]"] by (simp add: resolve_def in_grid_def Let_def)

lemma resolve_flatten: "in_grid L R C x \<Longrightarrow> resolve R C (flatten R C x) = x"
proof (cases x)
  case (fields l r c)
  moreover assume "in_grid L R C x"
  ultimately have v: "nd_valid_index [L, R, C] [l, r, c]" by (simp add: in_grid_valid_index)
  have "nd_unravel [L, R, C] (nd_offset [L, R, C] [l, r, c]) = [l, r, c]"
    using v by (rule nd_unravel_offset)
  then show ?thesis using fields by (simp add: resolve_def flatten_def Let_def add.assoc)
qed

lemma flatten_bound: "in_grid L R C x \<Longrightarrow> flatten R C x < L * R * C"
proof (cases x)
  case (fields l r c)
  moreover assume "in_grid L R C x"
  ultimately have "nd_offset [L, R, C] [l, r, c] < prod_list [L, R, C]"
    by (intro nd_offset_bound) (simp add: in_grid_valid_index)
  with fields show ?thesis by (simp add: flatten_def mult.assoc add.assoc)
qed

section \<open>The search finds exactly the decomposition\<close>

lemma filter_upt_eq_single: "n < N \<Longrightarrow> filter (\<lambda>m. m = n) [0..<N] = [n]"
proof (induction N)
  case 0
  then show ?case by simp
next
  case (Suc N)
  then show ?case by (cases "n = N") (auto simp: filter_empty_conv)
qed

lemma np_arange_upt: "nd_data (np_arange 0 (int N)) = map int [0..<N]"
proof -
  have "[0..int N - 1] = map int [0..<N]"
    by (induction N) (simp_all add: upto_rec2)
  then show ?thesis by (simp add: np_arange_def)
qed

lemma cell_list_arr:
  "np_reshape (np_arange 0 (int (L * R * C))) [L, R, C] =
   Inr \<lparr>nd_shape = [L, R, C], nd_data = map int [0..<L * R * C]\<rparr>"
  using np_arange_upt [of "L * R * C"] by (simp add: np_reshape_def)

lemma argwhere_cell_list_arr:
  assumes "n < L * R * C"
  shows "np_argwhere (np_eq \<lparr>nd_shape = [L, R, C], nd_data = map int [0..<L * R * C]\<rparr> (int n)) =
         [case resolve R C n of (l, r, c) \<Rightarrow> [l, r, c]]"
proof -
  let ?a = "\<lparr>nd_shape = [L, R, C], nd_data = map int [0..<L * R * C]\<rparr> :: int ndarray"
  have wf: "nd_wf ?a" by (simp add: nd_wf_def)
  have "filter (\<lambda>m. nd_data ?a ! m = int n) [0..<length (nd_data ?a)] =
        filter (\<lambda>m. m = n) [0..<L * R * C]"
    by (intro filter_cong) simp_all
  with assms have "filter (\<lambda>m. nd_data ?a ! m = int n) [0..<length (nd_data ?a)] = [n]"
    by (simp add: filter_upt_eq_single)
  then show ?thesis by (simp add: np_argwhere_eq [OF wf] resolve_def Let_def)
qed

lemma id_dict_loop_cell_list:
  assumes "\<forall>n \<in> set ns. n < L * R * C"
  shows "id_dict_loop \<lparr>nd_shape = [L, R, C], nd_data = map int [0..<L * R * C]\<rparr> (map int ns) d =
         Inr (\<lambda>v. if v \<in> int ` set ns then Some (resolve R C (nat v)) else d v)"
  using assms
proof (induction ns arbitrary: d)
  case Nil
  then show ?case by simp
next
  case (Cons n ns)
  then have "n < L * R * C" by simp
  let ?arr = "\<lparr>nd_shape = [L, R, C], nd_data = map int [0..<L * R * C]\<rparr> :: int ndarray"
  have step: "id_dict_loop ?arr (map int (n # ns)) d =
              id_dict_loop ?arr (map int ns) (d(int n \<mapsto> resolve R C n))"
    using Cons.prems by (simp add: argwhere_cell_list_arr py_index_def split: prod.splits)
  have ih: "id_dict_loop ?arr (map int ns) (d(int n \<mapsto> resolve R C n)) =
    Inr (\<lambda>v. if v \<in> int ` set ns then Some (resolve R C (nat v)) else (d(int n \<mapsto> resolve R C n)) v)"
    using Cons.prems by (intro Cons.IH) simp
  have "(\<lambda>v. if v \<in> int ` set ns then Some (resolve R C (nat v)) else (d(int n \<mapsto> resolve R C n)) v) =
        (\<lambda>v. if v \<in> int ` set (n # ns) then Some (resolve R C (nat v)) else d v)"
    by (auto intro!: ext)
  with step ih show ?case by simp
qed

text \<open>
  Functional refinement: the dictionary of lines 29--39 is the arithmetic specification,
  for every grid (for the script's grid it holds with \<open>L, R, C = 2, 102, 217\<close>).
\<close>

lemma build_id_dict_refines: "build_id_dict L R C = Inr (id_dict_spec L R C)"
proof -
  have "id_dict_loop \<lparr>nd_shape = [L, R, C], nd_data = map int [0..<L * R * C]\<rparr>
          (map int [0..<L * R * C]) Map.empty =
        Inr (\<lambda>v. if v \<in> int ` set [0..<L * R * C] then Some (resolve R C (nat v)) else None)"
    by (rule id_dict_loop_cell_list) simp
  moreover have "(\<lambda>v. if v \<in> int ` set [0..<L * R * C] then Some (resolve R C (nat v)) else None) =
                 id_dict_spec L R C"
    by (auto simp: id_dict_spec_def image_int_atLeastLessThan intro!: ext)
  ultimately show ?thesis
    unfolding build_id_dict_def Let_def cell_list_arr np_arange_upt by simp
qed

section \<open>Properties of the lookup table\<close>

lemma id_dict_spec_Some_in_grid:
  assumes "id_dict_spec L R C v = Some x"
  shows "in_grid L R C x \<and> int (flatten R C x) = v"
proof -
  from assms have v: "0 \<le> v" "v < int (L * R * C)" and x: "x = resolve R C (nat v)"
    by (auto simp: id_dict_spec_def split: if_splits simp del: of_nat_mult)
  from v have "nat v < L * R * C" by (simp add: nat_less_iff del: of_nat_mult)
  then have "in_grid L R C x" by (simp add: x resolve_in_grid)
  with v x show ?thesis by simp
qed

lemma id_dict_spec_flatten:
  "in_grid L R C x \<Longrightarrow> id_dict_spec L R C (int (flatten R C x)) = Some x"
  using flatten_bound [of L R C x] by (simp add: id_dict_spec_def resolve_flatten del: of_nat_mult)

text \<open>
  C1. Looking a cell identifier up in the table of lines 29--39 (\<open>id_dict[cellID]\<close>)
  gives the arithmetic decomposition \<open>(v div (R*C), (v mod (R*C)) div C, (v mod (R*C)) mod
  C)\<close> for every \<open>v\<close> in \<open>[0, L*R*C)\<close> and raises KeyError for every other \<open>v\<close>:
  the search-built table refines the specification's O(1) \<open>resolve\<close>.
\<close>

theorem id_dict_lookup:
  "ebind (build_id_dict L R C) (\<lambda>id_dict. dict_get id_dict v) =
   (if 0 \<le> v \<and> v < int (L * R * C) then Inr (resolve R C (nat v)) else Inl (KeyError v))"
  by (simp add: build_id_dict_refines dict_get_def id_dict_spec_def)

text \<open>
  C12. Round trip of the table: an entry \<open>id_dict[v] = (lay, row, col)\<close> lies in the grid
  and flattens back to \<open>v\<close> in row-major order, and every cell of the grid is found again
  under its row-major identifier.
\<close>

theorem id_dict_roundtrip:
  assumes "build_id_dict L R C = Inr d"
  shows "(d v = Some x \<longrightarrow> in_grid L R C x \<and> int (flatten R C x) = v) \<and>
         (in_grid L R C x \<longrightarrow> d (int (flatten R C x)) = Some x)"
proof -
  from assms have d: "d = id_dict_spec L R C" by (simp add: build_id_dict_refines)
  have "d v = Some x \<Longrightarrow> in_grid L R C x \<and> int (flatten R C x) = v"
    by (simp add: d id_dict_spec_Some_in_grid)
  moreover have "in_grid L R C x \<Longrightarrow> d (int (flatten R C x)) = Some x"
    by (simp add: d id_dict_spec_flatten)
  ultimately show ?thesis by blast
qed

theorem id_dict_roundtrip_witness:
  "id_dict_spec 2 3 4 5 = Some (0, 1, 1) \<and> in_grid 2 3 4 (0, 1, 1) \<and> int (flatten 3 4 (0, 1, 1)) = 5 \<and>
   in_grid 2 3 4 (1, 2, 3) \<and> id_dict_spec 2 3 4 (int (flatten 3 4 (1, 2, 3))) = Some (1, 2, 3)"
proof -
  have a: "id_dict_spec 2 3 4 5 = Some (0, 1, 1)" and b: "in_grid 2 3 4 (1, 2, 3)"
    by (simp_all add: id_dict_spec_def resolve_def in_grid_def)
  from id_dict_roundtrip [OF build_id_dict_refines, of 2 3 4 5 "(0, 1, 1)"] a
  have "in_grid 2 3 4 (0, 1, 1) \<and> int (flatten 3 4 (0, 1, 1)) = 5" by blast
  moreover from id_dict_roundtrip [OF build_id_dict_refines, of 2 3 4 _ "(1, 2, 3)"] b
  have "id_dict_spec 2 3 4 (int (flatten 3 4 (1, 2, 3))) = Some (1, 2, 3)" by blast
  ultimately show ?thesis using a b by blast
qed

text \<open>
  C13. The table is a bijection between the identifiers \<open>[0, L*R*C)\<close> and the cells of
  the grid: its keys are exactly those identifiers, its values exactly the in-grid
  coordinates, and no two identifiers share a coordinate.
\<close>

theorem id_dict_bijection:
  assumes "build_id_dict L R C = Inr d"
  shows "dom d = {0..<int (L * R * C)} \<and> ran d = {x. in_grid L R C x} \<and> inj_on d (dom d)"
proof -
  from assms have d: "d = id_dict_spec L R C" by (simp add: build_id_dict_refines)
  have dom: "dom d = {0..<int (L * R * C)}"
    by (auto simp: d id_dict_spec_def split: if_splits)
  have "ran d \<subseteq> {x. in_grid L R C x}"
    by (auto simp: d ran_def dest: id_dict_spec_Some_in_grid)
  moreover have "{x. in_grid L R C x} \<subseteq> ran d"
  proof
    fix x assume "x \<in> {x. in_grid L R C x}"
    then have "d (int (flatten R C x)) = Some x"
      by (simp add: d id_dict_spec_flatten)
    then show "x \<in> ran d" by (auto simp: ran_def)
  qed
  moreover have "inj_on d (dom d)"
  proof (rule inj_onI)
    fix v w assume "v \<in> dom d" "w \<in> dom d" "d v = d w"
    then obtain x where "d v = Some x" "d w = Some x" by auto
    then show "v = w" by (metis d id_dict_spec_Some_in_grid)
  qed
  ultimately show ?thesis using dom by blast
qed

theorem id_dict_bijection_witness:
  "dom (id_dict_spec 1 2 2) = {0..<int (1 * 2 * 2)} \<and> ran (id_dict_spec 1 2 2) = {x. in_grid 1 2 2 x} \<and>
   inj_on (id_dict_spec 1 2 2) (dom (id_dict_spec 1 2 2))"
  by (rule id_dict_bijection [OF build_id_dict_refines])

end
