(* ===== verification/FluxAccumulator.thy ===== *)
theory FluxAccumulator
  imports CoordinateIndex
begin

text \<open>
  The accumulation of lines 42--70 of the script. The budget file of flopy
  (\<open>bf.CellBudgetFile\<close>) is an external collaborator; the script uses two of its reads,
  \<open>get_kstpkper()\<close> and \<open>get_data(kstpkper=k, text=t)\<close>, which are the two fields of the
  interface record \<open>budget_file\<close>. For every time step the script takes the first
  record array of the reply (\<open>np.array(riv_rawdat)[0]\<close>), starts a zero volume of the
  grid's shape, and for every record \<open>(cellID, flx)\<close> looks the cell up in \<open>id_dict\<close>
  and adds \<open>flx\<close> at \<open>(lay, row, col)\<close>; the volumes are appended to \<open>rivflx\<close> and
  stacked with \<open>np.array\<close>. The lemmas characterise one step's volume as the histogram of
  the record fluxes by cell (so repeated cells add up), show that a successful step
  conserves the total flux, give the first failing record's KeyError, show that only the
  first record array of a reply is used, and show that the run keeps the order of the time
  steps, stops at the first failing step, and builds each step's volume afresh.
\<close>

section \<open>The budget-file interface and the accumulation\<close>

record budget_file =
  bf_kstpkper :: "kstpkper list"
  bf_get_data :: "kstpkper \<Rightarrow> string \<Rightarrow> py_error + flux_record list list"

definition river_leakage :: string where
  "river_leakage = ''   RIVER LEAKAGE''"

text \<open>
  \<open>np.array(riv_rawdat)[0]\<close>: IndexError when \<open>get_data\<close> returned no array, ValueError
  when it returned arrays of different lengths (a ragged \<open>np.array\<close>), else the first.
\<close>

definition np_array_first :: "'a list list \<Rightarrow> py_error + 'a list" where
  "np_array_first xss =
     (case xss of
        [] \<Rightarrow> Inl IndexError
      | xs # rest \<Rightarrow> (if list_all (\<lambda>ys. length ys = length xs) rest then Inr xs else Inl ValueError))"

text \<open>The loop \<open>for entry in riv_np\<close> of lines 60--64.\<close>

fun accumulate :: "(int \<rightharpoonup> coord) \<Rightarrow> real ndarray \<Rightarrow> flux_record list \<Rightarrow> py_error + real ndarray" where
  "accumulate id_dict v [] = Inr v"
| "accumulate id_dict v ((cellID, flx) # entries) =
     ebind (dict_get id_dict cellID) (\<lambda>(lay, row, col).
     ebind (nd_iadd v [lay, row, col] flx) (\<lambda>v'.
       accumulate id_dict v' entries))"

text \<open>
  The records of one time step, lines 51--56: \<open>riv_rawdat = modobj.get_data(kstpkper=k,
  text=text)\<close>, then \<open>riv_np = np.array(riv_rawdat)[0]\<close>.
\<close>

definition read_step :: "budget_file \<Rightarrow> string \<Rightarrow> kstpkper \<Rightarrow> py_error + flux_record list" where
  "read_step bf text k = ebind (bf_get_data bf k text) np_array_first"

text \<open>One iteration of the loop over time steps, lines 51--64.\<close>

definition process_step ::
  "nat list \<Rightarrow> budget_file \<Rightarrow> string \<Rightarrow> (int \<rightharpoonup> coord) \<Rightarrow> kstpkper \<Rightarrow> py_error + real ndarray" where
  "process_step grid bf text id_dict k =
     ebind (read_step bf text k) (\<lambda>riv_np.
       accumulate id_dict (np_zeros grid) riv_np)"

text \<open>The loop \<open>for current_kstpkper in ckstpkper\<close> with \<open>rivflx.append\<close>, lines 46--67.\<close>

fun run_steps ::
  "nat list \<Rightarrow> budget_file \<Rightarrow> string \<Rightarrow> (int \<rightharpoonup> coord) \<Rightarrow> kstpkper list \<Rightarrow> real ndarray list
   \<Rightarrow> py_error + real ndarray list" where
  "run_steps grid bf text id_dict [] rivflx = Inr rivflx"
| "run_steps grid bf text id_dict (k # ks) rivflx =
     ebind (process_step grid bf text id_dict k) (\<lambda>riv_flx_step.
       run_steps grid bf text id_dict ks (rivflx @ [riv_flx_step]))"

text \<open>
  Lines 29--70 for a grid \<open>(L, R, C)\<close> and a budget text: the lookup table, the loop over
  \<open>get_kstpkper()\<close>, and \<open>rivflx = np.array(rivflx)\<close>. The script runs it with
  \<open>(2, 102, 217)\<close> and \<open>river_leakage\<close>.
\<close>

definition post_process :: "nat \<Rightarrow> nat \<Rightarrow> nat \<Rightarrow> budget_file \<Rightarrow> string \<Rightarrow> py_error + real ndarray" where
  "post_process L R C bf text =
     ebind (build_id_dict L R C) (\<lambda>id_dict.
     ebind (run_steps [L, R, C] bf text id_dict (bf_kstpkper bf) []) (\<lambda>rivflx.
       np_stack rivflx))"

definition rivflx_script :: "budget_file \<Rightarrow> py_error + real ndarray" where
  "rivflx_script bf = post_process 2 102 217 bf river_leakage"

section \<open>One step: the histogram of the fluxes\<close>

text \<open>The flux of the records of cell \<open>i\<close>, in their order.\<close>

definition cell_flux :: "flux_record list \<Rightarrow> nat \<Rightarrow> real" where
  "cell_flux recs i = sum_list (map snd (filter (\<lambda>r. fst r = int i) recs))"

definition in_range :: "nat \<Rightarrow> flux_record list \<Rightarrow> bool" where
  "in_range N recs \<longleftrightarrow> list_all (\<lambda>r. 0 \<le> fst r \<and> fst r < int N) recs"

lemma cell_flux_simps [simp]:
  "cell_flux [] i = 0"
  "cell_flux ((c, f) # recs) i = (if c = int i then f else 0) + cell_flux recs i"
  by (simp_all add: cell_flux_def)

lemma dict_get_id_dict_spec:
  "dict_get (id_dict_spec L R C) c =
   (if 0 \<le> c \<and> c < int (L * R * C) then Inr (resolve R C (nat c)) else Inl (KeyError c))"
  by (simp add: dict_get_def id_dict_spec_def)

lemma nd_iadd_resolve:
  assumes "n < L * R * C" and "length xs = L * R * C" and rc: "resolve R C n = (l, r, c)"
  shows "nd_iadd \<lparr>nd_shape = [L, R, C], nd_data = xs\<rparr> [l, r, c] f =
         Inr \<lparr>nd_shape = [L, R, C], nd_data = xs[n := xs ! n + f]\<rparr>"
proof -
  from assms(1) have "in_grid L R C (l, r, c)" using resolve_in_grid rc by metis
  then have "nd_valid_index [L, R, C] [l, r, c]" by (simp add: in_grid_valid_index)
  moreover have "nd_offset [L, R, C] [l, r, c] = n"
    using flatten_resolve [of R C n] by (simp add: rc flatten_def add.assoc)
  ultimately show ?thesis by (simp add: nd_iadd_def)
qed

lemma accumulate_spec:
  assumes "in_range (L * R * C) recs"
  shows "accumulate (id_dict_spec L R C) \<lparr>nd_shape = [L, R, C], nd_data = map g [0..<L * R * C]\<rparr> recs =
         Inr \<lparr>nd_shape = [L, R, C], nd_data = map (\<lambda>i. g i + cell_flux recs i) [0..<L * R * C]\<rparr>"
  using assms
proof (induction recs arbitrary: g)
  case Nil
  then show ?case by simp
next
  case (Cons e recs)
  obtain cid f where e: "e = (cid, f)" by (cases e)
  with Cons.prems have cid: "0 \<le> cid" "cid < int (L * R * C)" and rest: "in_range (L * R * C) recs"
    by (simp_all add: in_range_def)
  then have n: "nat cid < L * R * C" by linarith
  obtain l r c where rc: "resolve R C (nat cid) = (l, r, c)" by (cases "resolve R C (nat cid)")
  let ?g' = "g(nat cid := g (nat cid) + f)"
  have upd: "(map g [0..<L * R * C])[nat cid := g (nat cid) + f] = map ?g' [0..<L * R * C]"
    using n by (intro nth_equalityI) (auto simp: nth_list_update)
  have step: "accumulate (id_dict_spec L R C) \<lparr>nd_shape = [L, R, C], nd_data = map g [0..<L * R * C]\<rparr> (e # recs) =
              accumulate (id_dict_spec L R C) \<lparr>nd_shape = [L, R, C], nd_data = map ?g' [0..<L * R * C]\<rparr> recs"
    using cid by (simp add: e dict_get_id_dict_spec rc nd_iadd_resolve [OF n _ rc] upd del: of_nat_mult)
  have "map (\<lambda>i. ?g' i + cell_flux recs i) [0..<L * R * C] =
        map (\<lambda>i. g i + cell_flux (e # recs) i) [0..<L * R * C]"
    using cid by (auto simp: e)
  with step Cons.IH [OF rest, of ?g'] show ?case by simp
qed

lemma np_zeros_grid:
  "np_zeros [L, R, C] = \<lparr>nd_shape = [L, R, C], nd_data = map (\<lambda>i. 0) [0..<L * R * C]\<rparr>"
  by (simp add: np_zeros_def map_replicate_const mult.assoc)

lemma accumulate_zeros:
  assumes "in_range (L * R * C) recs"
  shows "accumulate (id_dict_spec L R C) (np_zeros [L, R, C]) recs =
         Inr \<lparr>nd_shape = [L, R, C], nd_data = map (cell_flux recs) [0..<L * R * C]\<rparr>"
  using accumulate_spec [OF assms, of "\<lambda>i. 0"] by (simp add: np_zeros_grid)

lemma accumulate_append:
  "accumulate d v (xs @ ys) = ebind (accumulate d v xs) (\<lambda>v'. accumulate d v' ys)"
proof (induction d v xs rule: accumulate.induct)
  case (1 d v)
  then show ?case by simp
next
  case (2 d v cellID flx entries)
  then show ?case by (cases "dict_get d cellID") (auto simp: ebind_def split: sum.splits)
qed

lemma accumulate_Cons_Inr:
  assumes "accumulate d v ((cid, f) # rs) = Inr v'"
  obtains l r c v'' where "dict_get d cid = Inr (l, r, c)" and "nd_iadd v [l, r, c] f = Inr v''"
    and "accumulate d v'' rs = Inr v'"
  using assms by (auto simp: ebind_eq_Inr)

lemma accumulate_wf:
  "accumulate d v recs = Inr v' \<Longrightarrow> nd_wf v \<Longrightarrow> nd_wf v' \<and> nd_shape v' = nd_shape v"
proof (induction recs arbitrary: v)
  case Nil
  then show ?case by simp
next
  case (Cons e recs)
  obtain cid f where e: "e = (cid, f)" by (cases e)
  from Cons.prems(1) obtain l r c v'' where iadd: "nd_iadd v [l, r, c] f = Inr v''"
    and rest: "accumulate d v'' recs = Inr v'"
    unfolding e by (rule accumulate_Cons_Inr)
  from iadd Cons.prems(2) have "nd_wf v''" and "nd_shape v'' = nd_shape v"
    by (simp_all add: nd_wf_nd_iadd nd_iadd_Inr)
  with Cons.IH [OF rest] show ?case by simp
qed

lemma process_step_wf:
  "process_step grid bf text d k = Inr v \<Longrightarrow> nd_wf v \<and> nd_shape v = grid"
  by (auto simp: process_step_def ebind_eq_Inr dest!: accumulate_wf) (simp_all add: np_zeros_def)

lemma accumulate_sum_flux:
  "accumulate id_dict v recs = Inr v' \<Longrightarrow> nd_wf v \<Longrightarrow> np_sum v' = np_sum v + sum_list (map snd recs)"
proof (induction recs arbitrary: v)
  case Nil
  then show ?case by simp
next
  case (Cons e recs)
  obtain cid f where e: "e = (cid, f)" by (cases e)
  from Cons.prems(1) obtain l r c v'' where "nd_iadd v [l, r, c] f = Inr v''"
    and rest: "accumulate id_dict v'' recs = Inr v'"
    unfolding e by (rule accumulate_Cons_Inr)
  with Cons.prems(2) have "np_sum v'' = np_sum v + f" and "nd_wf v''"
    by (simp_all add: np_sum_nd_iadd nd_wf_nd_iadd)
  with Cons.IH [OF rest] show ?case by (simp add: e)
qed

lemma post_process_empty_run_eq:
  "bf_kstpkper bf = [] \<Longrightarrow> post_process L R C bf text = Inr \<lparr>nd_shape = [0], nd_data = []\<rparr>"
  by (simp add: post_process_def build_id_dict_refines np_stack_def)

section \<open>Properties of one step\<close>

text \<open>
  C3. When every record's cell identifier is in \<open>[0, L*R*C)\<close>, the volume of one step
  (lines 59--64 with the table of lines 29--39) is the histogram of the fluxes: the cell
  with row-major identifier \<open>i\<close> holds the sum of the fluxes of the records with
  \<open>cellID = i\<close>, and every other cell holds 0.
\<close>

theorem step_volume_histogram:
  assumes "build_id_dict L R C = Inr id_dict" and "in_range (L * R * C) recs"
  shows "accumulate id_dict (np_zeros [L, R, C]) recs =
         Inr \<lparr>nd_shape = [L, R, C], nd_data = map (cell_flux recs) [0..<L * R * C]\<rparr>"
proof -
  from assms(1) have "id_dict = id_dict_spec L R C" by (simp add: build_id_dict_refines)
  with accumulate_zeros [OF assms(2)] show ?thesis by simp
qed

theorem step_volume_histogram_witness:
  "in_range (1 * 2 * 2) [(3, 5 / 2), (0, 1), (3, -1)] \<and>
   accumulate (id_dict_spec 1 2 2) (np_zeros [1, 2, 2]) [(3, 5 / 2), (0, 1), (3, -1)] =
   Inr \<lparr>nd_shape = [1, 2, 2], nd_data = [1, 0, 0, 3 / 2]\<rparr>"
proof -
  have r: "in_range (1 * 2 * 2) [(3, 5 / 2), (0, 1), (3, -1)]" by (simp add: in_range_def)
  have "map (cell_flux [(3, 5 / 2), (0, 1), (3, -1)]) [0..<1 * 2 * 2] = [1, 0, 0, 3 / 2]"
    by (simp add: upt_rec)
  with step_volume_histogram [OF build_id_dict_refines r] r show ?thesis by simp
qed

text \<open>
  C4. Conservation of the flux in one step: whatever the table, if the loop of lines
  60--64 runs through without an exception, the total of the volume grows by exactly the
  sum of the records' fluxes; no record is dropped or counted twice.
\<close>

theorem accumulate_conserves_total:
  "accumulate id_dict v recs = Inr v' \<Longrightarrow> nd_wf v \<Longrightarrow> np_sum v' = np_sum v + sum_list (map snd recs)"
  by (rule accumulate_sum_flux)

theorem accumulate_conserves_total_witness:
  "accumulate (id_dict_spec 1 2 2) (np_zeros [1, 2, 2]) [(1, 2), (1, 3)] =
     Inr \<lparr>nd_shape = [1, 2, 2], nd_data = [0, 5, 0, 0]\<rparr> \<and> nd_wf (np_zeros [1, 2, 2] :: real ndarray) \<and>
   np_sum \<lparr>nd_shape = [1, 2, 2], nd_data = [0, 5, 0, 0 :: real]\<rparr> = np_sum (np_zeros [1, 2, 2] :: real ndarray) + (2 + 3)"
proof -
  have r: "in_range (1 * 2 * 2) [(1, 2), (1, 3)]" by (simp add: in_range_def)
  have "map (cell_flux [(1, 2), (1, 3)]) [0..<1 * 2 * 2] = [0, 5, 0, 0]"
    by (simp add: upt_rec)
  with accumulate_zeros [OF r]
  have a: "accumulate (id_dict_spec 1 2 2) (np_zeros [1, 2, 2]) [(1, 2), (1, 3)] =
           Inr \<lparr>nd_shape = [1, 2, 2], nd_data = [0, 5, 0, 0]\<rparr>" by simp
  have w: "nd_wf (np_zeros [1, 2, 2] :: real ndarray)" by simp
  from accumulate_conserves_total [OF a w] a w show ?thesis by simp
qed

text \<open>
  C8. Records that share a cell are added, not overwritten: two records \<open>(c, a)\<close> and
  \<open>(c, b)\<close> in one step leave \<open>a + b\<close> at the cell \<open>id_dict[c]\<close>.
\<close>

theorem accumulate_repeated_cell:
  assumes "build_id_dict L R C = Inr id_dict" and "0 \<le> c" and "c < int (L * R * C)"
    and "accumulate id_dict (np_zeros [L, R, C]) [(c, a), (c, b)] = Inr v"
  shows "\<exists>lay row col. id_dict c = Some (lay, row, col) \<and> nd_get v [lay, row, col] = a + b"
proof -
  from assms(1) have d: "id_dict = id_dict_spec L R C" by (simp add: build_id_dict_refines)
  from assms(2,3) have r: "in_range (L * R * C) [(c, a), (c, b)]" by (simp add: in_range_def)
  from assms(2,3) have n: "nat c < L * R * C" by (simp add: nat_less_iff del: of_nat_mult)
  have "accumulate id_dict (np_zeros [L, R, C]) [(c, a), (c, b)] =
        Inr \<lparr>nd_shape = [L, R, C], nd_data = map (cell_flux [(c, a), (c, b)]) [0..<L * R * C]\<rparr>"
    unfolding d by (rule accumulate_zeros [OF r])
  with assms(4) have v: "v = \<lparr>nd_shape = [L, R, C], nd_data = map (cell_flux [(c, a), (c, b)]) [0..<L * R * C]\<rparr>"
    by simp
  obtain lay row col where rc: "resolve R C (nat c) = (lay, row, col)" by (cases "resolve R C (nat c)")
  then have "id_dict c = Some (lay, row, col)" using assms(2,3) by (simp add: d id_dict_spec_def)
  moreover have "nd_offset [L, R, C] [lay, row, col] = nat c"
    using flatten_resolve [of R C "nat c"] by (simp add: rc flatten_def add.assoc)
  then have "nd_get v [lay, row, col] = a + b" using n assms(2) by (simp add: v nd_get_def)
  ultimately show ?thesis by blast
qed

theorem accumulate_repeated_cell_witness:
  "0 \<le> (217::int) \<and> 217 < int (2 * 102 * 217) \<and>
   accumulate (id_dict_spec 2 102 217) (np_zeros [2, 102, 217]) [(217, 5), (217, -2)] =
     Inr \<lparr>nd_shape = [2, 102, 217], nd_data = map (cell_flux [(217, 5), (217, -2)]) [0..<2 * 102 * 217]\<rparr> \<and>
   (\<exists>lay row col. id_dict_spec 2 102 217 217 = Some (lay, row, col) \<and>
      nd_get \<lparr>nd_shape = [2, 102, 217], nd_data = map (cell_flux [(217, 5), (217, -2)]) [0..<2 * 102 * 217]\<rparr>
        [lay, row, col] = 5 + -2)"
proof -
  have r: "in_range (2 * 102 * 217) [(217, 5), (217, -2)]" by (simp add: in_range_def)
  have a: "accumulate (id_dict_spec 2 102 217) (np_zeros [2, 102, 217]) [(217, 5), (217, -2)] =
     Inr \<lparr>nd_shape = [2, 102, 217], nd_data = map (cell_flux [(217, 5), (217, -2)]) [0..<2 * 102 * 217]\<rparr>"
    by (rule accumulate_zeros [OF r])
  have b: "0 \<le> (217::int)" "217 < int (2 * 102 * 217)" by simp_all
  from accumulate_repeated_cell [OF build_id_dict_refines b a] a b show ?thesis by blast
qed

text \<open>
  C9. A record whose cell identifier is outside \<open>[0, L*R*C)\<close> stops the step with
  \<open>KeyError\<close> carrying that identifier, after the in-range records before it; no
  record is skipped silently.
\<close>

theorem accumulate_key_error:
  assumes "build_id_dict L R C = Inr id_dict" and "in_range (L * R * C) pre"
    and "\<not> (0 \<le> c \<and> c < int (L * R * C))"
  shows "accumulate id_dict (np_zeros [L, R, C]) (pre @ (c, f) # post) = Inl (KeyError c)"
proof -
  from assms(1) have d: "id_dict = id_dict_spec L R C" by (simp add: build_id_dict_refines)
  from assms(3) have "dict_get id_dict c = Inl (KeyError c)"
    by (simp add: d dict_get_id_dict_spec del: of_nat_mult)
  then show ?thesis
    by (simp add: accumulate_append d accumulate_zeros [OF assms(2)])
qed

theorem accumulate_key_error_witness:
  "in_range (1 * 2 * 2) [(0, 1)] \<and> \<not> (0 \<le> (4::int) \<and> 4 < int (1 * 2 * 2)) \<and>
   accumulate (id_dict_spec 1 2 2) (np_zeros [1, 2, 2]) ([(0, 1)] @ (4, 7) # [(1, 1)]) = Inl (KeyError 4)"
proof -
  have r: "in_range (1 * 2 * 2) [(0, 1)]" by (simp add: in_range_def)
  have c: "\<not> (0 \<le> (4::int) \<and> 4 < int (1 * 2 * 2))" by simp
  show ?thesis by (intro conjI r c accumulate_key_error [OF build_id_dict_refines r c])
qed

section \<open>The loop over time steps\<close>

lemma run_steps_Inr_iff:
  "run_steps grid bf text d ks acc = Inr r \<longleftrightarrow>
   (\<exists>ws. r = acc @ ws \<and> list_all2 (\<lambda>k v. process_step grid bf text d k = Inr v) ks ws)"
proof (induction ks arbitrary: acc)
  case Nil
  then show ?case by auto
next
  case (Cons k ks)
  show ?case by (auto simp: ebind_eq_Inr list_all2_Cons1 Cons.IH)
qed

lemma run_steps_Inl:
  assumes "list_all2 (\<lambda>k v. process_step grid bf text d k = Inr v) pre vs"
    and "process_step grid bf text d k = Inl e"
  shows "run_steps grid bf text d (pre @ k # post) acc = Inl e"
  using assms(1)
proof (induction pre arbitrary: vs acc)
  case Nil
  with assms(2) show ?case by simp
next
  case (Cons k' pre)
  then obtain v vs' where "process_step grid bf text d k' = Inr v"
    and "list_all2 (\<lambda>k v. process_step grid bf text d k = Inr v) pre vs'"
    by (auto simp: list_all2_Cons1)
  with Cons.IH show ?case by simp
qed

lemma post_process_Inr_iff:
  "post_process L R C bf text = Inr T \<longleftrightarrow>
   (\<exists>vs. list_all2 (\<lambda>k v. process_step [L, R, C] bf text (id_dict_spec L R C) k = Inr v) (bf_kstpkper bf) vs
         \<and> np_stack vs = Inr T)"
  by (auto simp: post_process_def build_id_dict_refines ebind_eq_Inr run_steps_Inr_iff)

text \<open>
  C14. The loop of lines 50--67 keeps the order of \<open>get_kstpkper()\<close>: it succeeds exactly
  when every time step succeeds, and then \<open>rivflx[i]\<close> is the volume of the \<open>i\<close>-th
  time step; steps are neither re-sorted, dropped nor merged.
\<close>

theorem run_steps_in_order:
  "run_steps grid bf text id_dict ks [] = Inr rivflx \<longleftrightarrow>
   list_all2 (\<lambda>k v. process_step grid bf text id_dict k = Inr v) ks rivflx"
  by (simp add: run_steps_Inr_iff)

theorem run_steps_in_order_witness:
  "list_all2 (\<lambda>k v. process_step [1, 1, 1] \<lparr>bf_kstpkper = [(1, 1), (2, 1)], bf_get_data = (\<lambda>k t. Inr [[(0, real (fst k))]])\<rparr>
      river_leakage (id_dict_spec 1 1 1) k = Inr v)
     [(1, 1), (2, 1)] [\<lparr>nd_shape = [1, 1, 1], nd_data = [1]\<rparr>, \<lparr>nd_shape = [1, 1, 1], nd_data = [2]\<rparr>] \<and>
   run_steps [1, 1, 1] \<lparr>bf_kstpkper = [(1, 1), (2, 1)], bf_get_data = (\<lambda>k t. Inr [[(0, real (fst k))]])\<rparr>
      river_leakage (id_dict_spec 1 1 1) [(1, 1), (2, 1)] [] =
     Inr [\<lparr>nd_shape = [1, 1, 1], nd_data = [1]\<rparr>, \<lparr>nd_shape = [1, 1, 1], nd_data = [2]\<rparr>]"
proof -
  let ?bf = "\<lparr>bf_kstpkper = [(1, 1), (2, 1)], bf_get_data = (\<lambda>k t. Inr [[(0, real (fst k))]])\<rparr>"
  have "list_all2 (\<lambda>k v. process_step [1, 1, 1] ?bf river_leakage (id_dict_spec 1 1 1) k = Inr v)
     [(1, 1), (2, 1)] [\<lparr>nd_shape = [1, 1, 1], nd_data = [1]\<rparr>, \<lparr>nd_shape = [1, 1, 1], nd_data = [2]\<rparr>]"
    by (simp add: process_step_def read_step_def np_array_first_def np_zeros_def id_dict_spec_def
        resolve_def nd_iadd_def)
  with run_steps_in_order [of "[1, 1, 1]" ?bf river_leakage "id_dict_spec 1 1 1" "[(1, 1), (2, 1)]"]
  show ?thesis by blast
qed

text \<open>
  C23. A time step for which \<open>get_data\<close> returns no record array (the budget text is
  absent at that step) stops the step with IndexError at \<open>np.array(riv_rawdat)[0]\<close>;
  the code does not treat it as a step without records.
\<close>

theorem process_step_absent_component:
  "bf_get_data bf k text = Inr [] \<Longrightarrow> process_step grid bf text id_dict k = Inl IndexError"
  by (simp add: process_step_def read_step_def np_array_first_def)

theorem process_step_absent_component_witness:
  "bf_get_data \<lparr>bf_kstpkper = [(1, 1)], bf_get_data = (\<lambda>k t. Inr [])\<rparr> (1, 1) river_leakage = Inr [] \<and>
   process_step [1, 1, 1] \<lparr>bf_kstpkper = [(1, 1)], bf_get_data = (\<lambda>k t. Inr [])\<rparr> river_leakage
     (id_dict_spec 1 1 1) (1, 1) = Inl IndexError"
  using process_step_absent_component [of "\<lparr>bf_kstpkper = [(1, 1)], bf_get_data = (\<lambda>k t. Inr [])\<rparr>"
      "(1, 1)" river_leakage "[1, 1, 1]" "id_dict_spec 1 1 1"] by simp

text \<open>
  C24. When \<open>get_data\<close> returns several record arrays for a step (the budget text occurs
  more than once in that step), lines 54--56 keep only the first: if the others have its
  length, the step's volume is the histogram of the first array alone, whatever the others
  hold; if a length differs, \<open>np.array(riv_rawdat)\<close> raises ValueError.
\<close>

theorem process_step_first_array:
  assumes "bf_get_data bf k text = Inr (recs # others)" and "in_range (L * R * C) recs"
  shows "process_step [L, R, C] bf text (id_dict_spec L R C) k =
         (if list_all (\<lambda>ys. length ys = length recs) others
          then Inr \<lparr>nd_shape = [L, R, C], nd_data = map (cell_flux recs) [0..<L * R * C]\<rparr>
          else Inl ValueError)"
  using assms(1) accumulate_zeros [OF assms(2)]
  by (simp add: process_step_def read_step_def np_array_first_def)

theorem process_step_first_array_witness:
  "bf_get_data \<lparr>bf_kstpkper = [(0, 0)], bf_get_data = (\<lambda>k t. Inr [[(0, 1)], [(0, 5)]])\<rparr> (0, 0) river_leakage =
     Inr [[(0, 1)], [(0, 5)]] \<and>
   in_range (1 * 1 * 1) [(0, 1)] \<and>
   process_step [1, 1, 1] \<lparr>bf_kstpkper = [(0, 0)], bf_get_data = (\<lambda>k t. Inr [[(0, 1)], [(0, 5)]])\<rparr> river_leakage
     (id_dict_spec 1 1 1) (0, 0) = Inr \<lparr>nd_shape = [1, 1, 1], nd_data = [1]\<rparr> \<and>
   process_step [1, 1, 1] \<lparr>bf_kstpkper = [(0, 0)], bf_get_data = (\<lambda>k t. Inr [[(0, 1)], [(0, 5), (0, 2)]])\<rparr>
     river_leakage (id_dict_spec 1 1 1) (0, 0) = Inl ValueError"
proof -
  have r: "in_range (1 * 1 * 1) [(0 :: int, 1 :: real)]" by (simp add: in_range_def)
  have a: "process_step [1, 1, 1] \<lparr>bf_kstpkper = [(0, 0)], bf_get_data = (\<lambda>k t. Inr [[(0, 1)], [(0, 5)]])\<rparr>
     river_leakage (id_dict_spec 1 1 1) (0, 0) = Inr \<lparr>nd_shape = [1, 1, 1], nd_data = [1]\<rparr>"
    using process_step_first_array [of "\<lparr>bf_kstpkper = [(0, 0)], bf_get_data = (\<lambda>k t. Inr [[(0, 1)], [(0, 5)]])\<rparr>"
        "(0, 0)" river_leakage "[(0, 1)]" "[[(0, 5)]]" 1 1 1] r by simp
  have b: "process_step [1, 1, 1] \<lparr>bf_kstpkper = [(0, 0)], bf_get_data = (\<lambda>k t. Inr [[(0, 1)], [(0, 5), (0, 2)]])\<rparr>
     river_leakage (id_dict_spec 1 1 1) (0, 0) = Inl ValueError"
    using process_step_first_array [of "\<lparr>bf_kstpkper = [(0, 0)], bf_get_data = (\<lambda>k t. Inr [[(0, 1)], [(0, 5), (0, 2)]])\<rparr>"
        "(0, 0)" river_leakage "[(0, 1)]" "[[(0, 5), (0, 2)]]" 1 1 1] r by simp
  from a b r show ?thesis by simp
qed

text \<open>
  C25. With no stored time step, lines 29--70 produce \<open>np.array([])\<close>: an empty
  one-dimensional array of shape \<open>(0,)\<close>, not an empty array of shape
  \<open>(0, L, R, C)\<close>.
\<close>

theorem post_process_empty_run:
  "bf_kstpkper bf = [] \<Longrightarrow> post_process L R C bf text = Inr \<lparr>nd_shape = [0], nd_data = []\<rparr>"
  by (rule post_process_empty_run_eq)

theorem post_process_empty_run_witness:
  "bf_kstpkper \<lparr>bf_kstpkper = [], bf_get_data = (\<lambda>k t. Inr [])\<rparr> = [] \<and>
   post_process 2 102 217 \<lparr>bf_kstpkper = [], bf_get_data = (\<lambda>k t. Inr [])\<rparr> river_leakage =
     Inr \<lparr>nd_shape = [0], nd_data = []\<rparr>"
  using post_process_empty_run [of "\<lparr>bf_kstpkper = [], bf_get_data = (\<lambda>k t. Inr [])\<rparr>" 2 102 217 river_leakage]
  by simp

section \<open>The whole run\<close>

lemma post_process_volumes:
  assumes "post_process L R C bf text = Inr X"
  obtains vs where "list_all2 (\<lambda>k v. process_step [L, R, C] bf text (id_dict_spec L R C) k = Inr v) (bf_kstpkper bf) vs"
    and "list_all (\<lambda>v. nd_shape v = [L, R, C] \<and> nd_wf v) vs" and "np_stack vs = Inr X"
proof -
  from assms obtain vs where all: "list_all2 (\<lambda>k v. process_step [L, R, C] bf text (id_dict_spec L R C) k = Inr v) (bf_kstpkper bf) vs"
    and st: "np_stack vs = Inr X"
    by (auto simp: post_process_Inr_iff)
  have "list_all (\<lambda>v. nd_shape v = [L, R, C] \<and> nd_wf v) vs"
    using all by (rule list_all2_all_right) (simp add: process_step_wf)
  from all this st show ?thesis by (rule that)
qed

lemma process_step_Inr:
  "process_step grid bf text d k = Inr v \<longleftrightarrow>
   (\<exists>rs. read_step bf text k = Inr rs \<and> accumulate d (np_zeros grid) rs = Inr v)"
  by (simp add: process_step_def ebind_eq_Inr)

lemma post_process_sum_flux:
  assumes "post_process L R C bf text = Inr X"
  shows "\<exists>rss. list_all2 (\<lambda>k rs. read_step bf text k = Inr rs) (bf_kstpkper bf) rss \<and>
               np_sum X = sum_list (map (\<lambda>rs. sum_list (map snd rs)) rss)"
proof -
  obtain vs where all: "list_all2 (\<lambda>k v. process_step [L, R, C] bf text (id_dict_spec L R C) k = Inr v) (bf_kstpkper bf) vs"
    and st: "np_stack vs = Inr X"
    using assms by (rule post_process_volumes)
  have "\<exists>rss. list_all2 (\<lambda>k rs. read_step bf text k = Inr rs) ks rss \<and>
          sum_list (map np_sum ws) = sum_list (map (\<lambda>rs. sum_list (map snd rs)) rss)"
    if "list_all2 (\<lambda>k v. process_step [L, R, C] bf text (id_dict_spec L R C) k = Inr v) ks ws" for ks ws
    using that
  proof (induction ks ws rule: list_all2_induct)
    case Nil
    then show ?case by simp
  next
    case (Cons k ks w ws)
    then obtain rs where rd: "read_step bf text k = Inr rs"
      and acc: "accumulate (id_dict_spec L R C) (np_zeros [L, R, C]) rs = Inr w"
      by (auto simp: process_step_Inr)
    have w: "np_sum w = sum_list (map snd rs)"
      using accumulate_sum_flux [OF acc] by simp
    from Cons.IH obtain rss where "list_all2 (\<lambda>k rs. read_step bf text k = Inr rs) ks rss"
      and "sum_list (map np_sum ws) = sum_list (map (\<lambda>rs. sum_list (map snd rs)) rss)" by blast
    with rd w have "list_all2 (\<lambda>k rs. read_step bf text k = Inr rs) (k # ks) (rs # rss) \<and>
      sum_list (map np_sum (w # ws)) = sum_list (map (\<lambda>rs. sum_list (map snd rs)) (rs # rss))" by simp
    then show ?case by blast
  qed
  from this [OF all] show ?thesis by (simp add: np_sum_np_stack [OF st])
qed

lemma histogram_volumes_stack:
  assumes "rss \<noteq> []"
  shows "np_stack (map (\<lambda>rs. \<lparr>nd_shape = [L, R, C], nd_data = map (cell_flux rs) [0..<L * R * C]\<rparr>) rss) =
         Inr \<lparr>nd_shape = [length rss, L, R, C],
              nd_data = concat (map (\<lambda>rs. map (cell_flux rs) [0..<L * R * C]) rss)\<rparr>"
  using assms by (cases rss) (simp_all add: np_stack_def list_all_iff comp_def)

lemma post_process_histograms_eq:
  assumes "list_all2 (\<lambda>k rs. read_step bf text k = Inr rs \<and> in_range (L * R * C) rs) (bf_kstpkper bf) rss"
    and "bf_kstpkper bf \<noteq> []"
  shows "post_process L R C bf text =
         Inr \<lparr>nd_shape = [length rss, L, R, C],
              nd_data = concat (map (\<lambda>rs. map (cell_flux rs) [0..<L * R * C]) rss)\<rparr>"
proof -
  let ?h = "\<lambda>rs. \<lparr>nd_shape = [L, R, C], nd_data = map (cell_flux rs) [0..<L * R * C]\<rparr>"
  have "list_all2 (\<lambda>k v. process_step [L, R, C] bf text (id_dict_spec L R C) k = Inr v) (bf_kstpkper bf) (map ?h rss)"
    using assms(1) unfolding list_all2_map2
    by (rule list_all2_mono) (simp add: process_step_def accumulate_zeros)
  moreover have "rss \<noteq> []" using assms by (auto simp: list_all2_Nil)
  ultimately show ?thesis
    by (auto simp: post_process_Inr_iff histogram_volumes_stack)
qed

lemma histogram_stack_get:
  assumes "t < length rss" and "in_grid L R C x"
  shows "nd_get \<lparr>nd_shape = [length rss, L, R, C],
                 nd_data = concat (map (\<lambda>rs. map (cell_flux rs) [0..<L * R * C]) rss)\<rparr>
           (case x of (lay, row, col) \<Rightarrow> [t, lay, row, col]) =
         cell_flux (rss ! t) (flatten R C x)"
proof -
  obtain lay row col where x: "x = (lay, row, col)" by (cases x)
  let ?xss = "map (\<lambda>rs. map (cell_flux rs) [0..<L * R * C]) rss"
  have fb: "flatten R C x < L * R * C" using assms(2) by (rule flatten_bound)
  have off: "nd_offset [length rss, L, R, C] [t, lay, row, col] = t * (L * R * C) + flatten R C (lay, row, col)"
    by (simp add: flatten_def algebra_simps)
  have "\<forall>xs \<in> set ?xss. length xs = L * R * C" by auto
  then have "concat ?xss ! (t * (L * R * C) + flatten R C x) = ?xss ! t ! flatten R C x"
    using assms(1) fb by (intro nth_concat_blocks) simp_all
  moreover have "nd_get \<lparr>nd_shape = [length rss, L, R, C], nd_data = concat ?xss\<rparr>
                   (case x of (lay, row, col) \<Rightarrow> [t, lay, row, col]) =
                 concat ?xss ! (t * (L * R * C) + flatten R C x)"
    unfolding nd_get_def x prod.case ndarray.select_convs off by (rule refl)
  ultimately show ?thesis using assms(1) fb by simp
qed


lemma accumulate_in_range:
  "accumulate (id_dict_spec L R C) v rs = Inr v' \<Longrightarrow> in_range (L * R * C) rs"
proof (induction rs arbitrary: v)
  case Nil
  then show ?case by (simp add: in_range_def)
next
  case (Cons e rs)
  obtain cid f where e: "e = (cid, f)" by (cases e)
  from Cons.prems obtain l r c v'' where d: "dict_get (id_dict_spec L R C) cid = Inr (l, r, c)"
    and rest: "accumulate (id_dict_spec L R C) v'' rs = Inr v'"
    unfolding e by (rule accumulate_Cons_Inr)
  from d have "0 \<le> cid \<and> cid < int (L * R * C)"
    by (simp add: dict_get_id_dict_spec split: if_splits)
  with Cons.IH [OF rest] show ?case by (simp add: e in_range_def)
qed

lemma post_process_records:
  assumes "post_process L R C bf text = Inr X"
  shows "\<exists>rss. list_all2 (\<lambda>k rs. read_step bf text k = Inr rs \<and> in_range (L * R * C) rs) (bf_kstpkper bf) rss"
proof -
  obtain vs where all: "list_all2 (\<lambda>k v. process_step [L, R, C] bf text (id_dict_spec L R C) k = Inr v) (bf_kstpkper bf) vs"
    using assms by (auto simp: post_process_Inr_iff)
  have "\<forall>k \<in> set (bf_kstpkper bf). \<exists>rs. read_step bf text k = Inr rs \<and> in_range (L * R * C) rs"
  proof
    fix k assume "k \<in> set (bf_kstpkper bf)"
    with all obtain v where "process_step [L, R, C] bf text (id_dict_spec L R C) k = Inr v"
      by (blast dest: list_all2_ex_right)
    then show "\<exists>rs. read_step bf text k = Inr rs \<and> in_range (L * R * C) rs"
      by (auto simp: process_step_Inr dest: accumulate_in_range)
  qed
  then show ?thesis by (rule list_all2_choice)
qed

lemma sum_cell_flux_upt:
  "sum_list (map (cell_flux rs) [0..<n]) = sum_list (map snd (filter (\<lambda>r. 0 \<le> fst r \<and> fst r < int n) rs))"
proof (induction rs)
  case Nil
  then show ?case by simp
next
  case (Cons e rs)
  obtain c f where e: "e = (c, f)" by (cases e)
  have "sum_list (map (cell_flux (e # rs)) [0..<n]) =
        sum_list (map (\<lambda>i. if c = int i then f else 0) [0..<n]) + sum_list (map (cell_flux rs) [0..<n])"
  proof -
    have "cell_flux (e # rs) = (\<lambda>i. (if c = int i then f else 0) + cell_flux rs i)" by (rule ext) (simp add: e)
    then show ?thesis by (simp only: sum_list_addf)
  qed
  with Cons.IH show ?case by (simp only: sum_list_upt_indicator) (simp add: e)
qed


text \<open>
  C10. A failing step ends the run (spec section 7): when the steps before \<open>k\<close> succeed
  and step \<open>k\<close> raises \<open>e\<close>, lines 29--70 raise \<open>e\<close>, whatever the later steps
  hold; they are never read.
\<close>

theorem run_aborts_at_first_failure:
  assumes "bf_kstpkper bf = pre @ k # post"
    and "list_all2 (\<lambda>k v. process_step [L, R, C] bf text (id_dict_spec L R C) k = Inr v) pre vs"
    and "process_step [L, R, C] bf text (id_dict_spec L R C) k = Inl e"
  shows "post_process L R C bf text = Inl e"
  using run_steps_Inl [OF assms(2,3)] by (simp add: post_process_def build_id_dict_refines assms(1))

theorem run_aborts_at_first_failure_witness:
  "bf_kstpkper \<lparr>bf_kstpkper = [(0, 0), (0, 1), (0, 2)],
                bf_get_data = (\<lambda>k t. if k = (0, 1) then Inr [[(5, 1)]] else Inr [[(0, 1)]])\<rparr> =
     [(0, 0)] @ (0, 1) # [(0, 2)] \<and>
   list_all2 (\<lambda>k v. process_step [1, 1, 2] \<lparr>bf_kstpkper = [(0, 0), (0, 1), (0, 2)],
                bf_get_data = (\<lambda>k t. if k = (0, 1) then Inr [[(5, 1)]] else Inr [[(0, 1)]])\<rparr>
                river_leakage (id_dict_spec 1 1 2) k = Inr v)
     [(0, 0)] [\<lparr>nd_shape = [1, 1, 2], nd_data = [1, 0]\<rparr>] \<and>
   process_step [1, 1, 2] \<lparr>bf_kstpkper = [(0, 0), (0, 1), (0, 2)],
                bf_get_data = (\<lambda>k t. if k = (0, 1) then Inr [[(5, 1)]] else Inr [[(0, 1)]])\<rparr>
     river_leakage (id_dict_spec 1 1 2) (0, 1) = Inl (KeyError 5) \<and>
   post_process 1 1 2 \<lparr>bf_kstpkper = [(0, 0), (0, 1), (0, 2)],
                bf_get_data = (\<lambda>k t. if k = (0, 1) then Inr [[(5, 1)]] else Inr [[(0, 1)]])\<rparr>
     river_leakage = Inl (KeyError 5)"
proof -
  let ?bf = "\<lparr>bf_kstpkper = [(0, 0), (0, 1), (0, 2)],
                bf_get_data = (\<lambda>k t. if k = (0, 1) then Inr [[(5, 1)]] else Inr [[(0 :: int, 1 :: real)]])\<rparr>"
  have ks: "bf_kstpkper ?bf = [(0, 0)] @ (0, 1) # [(0, 2)]" by simp
  have pre: "list_all2 (\<lambda>k v. process_step [1, 1, 2] ?bf river_leakage (id_dict_spec 1 1 2) k = Inr v)
     [(0, 0)] [\<lparr>nd_shape = [1, 1, 2], nd_data = [1, 0]\<rparr>]"
    using accumulate_zeros [of 1 1 2 "[(0, 1)]"]
    by (simp add: process_step_def read_step_def np_array_first_def in_range_def upt_rec)
  have bad: "process_step [1, 1, 2] ?bf river_leakage (id_dict_spec 1 1 2) (0, 1) = Inl (KeyError 5)"
    by (simp add: process_step_def read_step_def np_array_first_def dict_get_id_dict_spec)
  from run_aborts_at_first_failure [OF ks pre bad] ks pre bad show ?thesis by simp
qed

lemma process_step_same_data:
  "bf_get_data bf' k text = bf_get_data bf k text \<Longrightarrow>
   process_step grid bf' text d k = process_step grid bf text d k"
  by (simp add: process_step_def read_step_def)

text \<open>
  C11. No state crosses time steps (spec section 5): the volume \<open>rivflx[t]\<close> of a run
  depends only on what \<open>get_data\<close> returns for the \<open>t\<close>-th key. Two budget files with
  the same keys that agree on that key give the same \<open>rivflx[t]\<close>.
\<close>

theorem step_independence:
  assumes X: "post_process L R C bf text = Inr X" and X': "post_process L R C bf' text = Inr X'"
    and ks: "bf_kstpkper bf' = bf_kstpkper bf" and t: "t < length (bf_kstpkper bf)"
    and same: "bf_get_data bf' (bf_kstpkper bf ! t) text = bf_get_data bf (bf_kstpkper bf ! t) text"
  shows "np_take_axis X' 0 t = np_take_axis X 0 t"
proof -
  obtain vs where all: "list_all2 (\<lambda>k v. process_step [L, R, C] bf text (id_dict_spec L R C) k = Inr v) (bf_kstpkper bf) vs"
    and sh: "list_all (\<lambda>v. nd_shape v = [L, R, C] \<and> nd_wf v) vs" and st: "np_stack vs = Inr X"
    using X by (rule post_process_volumes)
  obtain vs' where all': "list_all2 (\<lambda>k v. process_step [L, R, C] bf' text (id_dict_spec L R C) k = Inr v) (bf_kstpkper bf') vs'"
    and sh': "list_all (\<lambda>v. nd_shape v = [L, R, C] \<and> nd_wf v) vs'" and st': "np_stack vs' = Inr X'"
    using X' by (rule post_process_volumes)
  have len: "length vs = length (bf_kstpkper bf)" and len': "length vs' = length (bf_kstpkper bf)"
    using list_all2_lengthD [OF all] list_all2_lengthD [OF all'] ks by simp_all
  have "process_step [L, R, C] bf text (id_dict_spec L R C) (bf_kstpkper bf ! t) = Inr (vs ! t)"
    using list_all2_nthD [OF all t] by simp
  moreover have "process_step [L, R, C] bf' text (id_dict_spec L R C) (bf_kstpkper bf ! t) = Inr (vs' ! t)"
    using list_all2_nthD [OF all', of t] t ks by simp
  ultimately have "vs' ! t = vs ! t" using process_step_same_data [OF same] by simp
  moreover have "np_take_axis X 0 t = Inr (vs ! t)"
    using sh st t len by (intro np_take_axis0_np_stack) (auto simp: list_all_iff)
  moreover have "np_take_axis X' 0 t = Inr (vs' ! t)"
    using sh' st' t len' by (intro np_take_axis0_np_stack) (auto simp: list_all_iff)
  ultimately show ?thesis by simp
qed

end
