(* ===== verification/Queries.thy ===== *)
theory Queries
  imports FluxAccumulator
begin

text \<open>
  The analyses of lines 79--119 over the stacked array \<open>rivflx\<close> of shape
  \<open>(T, L, R, C)\<close>: \<open>rivflx[:,:,:,:].sum(axis=1).mean(axis=0)\<close> (the layer sum averaged
  over time), \<open>rivflx.sum()\<close>, its conversion to acre-feet \<open>* 35.315 / 43560\<close>,
  \<open>rivflx[10:20, 0, :, :].sum(axis=0)\<close> (layer 0 summed over the time steps 10 to 19,
  clamped to the steps that exist) with its total, and the plotting copy in which the zero
  cells become NaN. The expression statements that only display a value (\<open>rivflx.shape\<close>,
  lines 73, 80, 81) and the matplotlib calls are not modelled. The lemmas give each result
  cell by cell in terms of the per-step volumes, the shape of the stacked array, and when
  the whole script (\<open>run_script\<close>) completes.
\<close>

section \<open>The queries\<close>

text \<open>
  \<open>a[:,:,:,:]\<close>: a view of the whole array; numpy raises IndexError ("too many
  indices") when the array has fewer than four axes.
\<close>

definition np_full_view4 :: "'a ndarray \<Rightarrow> py_error + 'a ndarray" where
  "np_full_view4 a = (if length (nd_shape a) < 4 then Inl IndexError else Inr a)"

text \<open>Line 79.\<close>

definition all_time_2D :: "real ndarray \<Rightarrow> py_error + real ndarray" where
  "all_time_2D rivflx =
     ebind (np_full_view4 rivflx) (\<lambda>v.
     ebind (np_sum_axis v 1) (\<lambda>s.
       np_mean_axis s 0))"

text \<open>Line 90: \<open>rivflx.sum() * 35.315 / 43560\<close>, cubic metres to acre-feet.\<close>

definition to_acre_ft :: "real \<Rightarrow> real" where
  "to_acre_ft x = x * 35.315 / 43560"

text \<open>
  Line 111: \<open>rivflx[10:20, 0, :, :]\<close> is the slice \<open>[10:20)\<close> of the time axis followed
  by index 0 of the layer axis (IndexError with fewer than four axes or no layer), then
  \<open>.sum(axis=0)\<close> over the remaining time axis.
\<close>

definition lay1_window :: "real ndarray \<Rightarrow> py_error + real ndarray" where
  "lay1_window rivflx =
     ebind (np_full_view4 rivflx) (\<lambda>v.
     ebind (np_slice0 v 10 20) (\<lambda>w.
     ebind (np_take_axis w 1 0) (\<lambda>lay.
       np_sum_axis lay 0)))"

text \<open>
  Lines 118--119: a copy in which every cell equal to 0 becomes NaN (here \<open>None\<close>) before
  it is drawn.
\<close>

definition plot_mask :: "real ndarray \<Rightarrow> real option ndarray" where
  "plot_mask a =
     \<lparr>nd_shape = nd_shape a, nd_data = map (\<lambda>x. if x = 0 then None else Some x) (nd_data a)\<rparr>"

record script_outputs =
  rivflx_2D_all_time :: "real ndarray"
  rivflx_total :: real
  rivflx_total_acft :: real
  lay1_total_rivflx_10days :: "real ndarray"
  lay1_total_10days_sum :: real
  rivflx_2D_all_time_plt :: "real option ndarray"

text \<open>Lines 79--119 in order; the first exception ends the script.\<close>

definition script_queries :: "real ndarray \<Rightarrow> py_error + script_outputs" where
  "script_queries rivflx =
     ebind (all_time_2D rivflx) (\<lambda>a2d.
     ebind (lay1_window rivflx) (\<lambda>lay1.
       Inr \<lparr>rivflx_2D_all_time = a2d,
            rivflx_total = np_sum rivflx,
            rivflx_total_acft = to_acre_ft (np_sum rivflx),
            lay1_total_rivflx_10days = lay1,
            lay1_total_10days_sum = np_sum lay1,
            rivflx_2D_all_time_plt = plot_mask a2d\<rparr>))"

text \<open>The whole script on a budget file: lines 29--70, then lines 79--119.\<close>

definition run_script :: "budget_file \<Rightarrow> py_error + script_outputs" where
  "run_script bf = ebind (rivflx_script bf) script_queries"

text \<open>A small budget file for the examples: two steps on a \<open>(1, 1, 2)\<close> grid.\<close>

definition example_file :: budget_file where
  "example_file = \<lparr>bf_kstpkper = [(1, 1), (2, 1)], bf_get_data = (\<lambda>k t. Inr [[(0, 1), (1, real (fst k))]])\<rparr>"

section \<open>The query layer's contract (spec section 4.3)\<close>

text \<open>
  The abstract specification of the queries: a FluxTensor is a function of
  \<open>(t, layer, row, col)\<close>, and the spec's operations act on such functions. The
  abstraction function \<open>flux_tensor\<close> reads an array of shape \<open>(T, L, R, C)\<close> as one.
\<close>

definition flux_tensor :: "real ndarray \<Rightarrow> nat \<Rightarrow> nat \<Rightarrow> nat \<Rightarrow> nat \<Rightarrow> real" where
  "flux_tensor X t l r c = nd_get X [t, l, r, c]"

definition spatial_sum :: "nat \<Rightarrow> (nat \<Rightarrow> nat \<Rightarrow> nat \<Rightarrow> nat \<Rightarrow> real) \<Rightarrow> nat \<Rightarrow> nat \<Rightarrow> nat \<Rightarrow> real" where
  "spatial_sum L F t r c = sum_list (map (\<lambda>l. F t l r c) [0..<L])"

definition layer_of :: "nat \<Rightarrow> (nat \<Rightarrow> nat \<Rightarrow> nat \<Rightarrow> nat \<Rightarrow> real) \<Rightarrow> nat \<Rightarrow> nat \<Rightarrow> nat \<Rightarrow> real" where
  "layer_of l F t r c = F t l r c"

definition temporal_sum :: "nat \<Rightarrow> nat \<Rightarrow> (nat \<Rightarrow> nat \<Rightarrow> nat \<Rightarrow> real) \<Rightarrow> nat \<Rightarrow> nat \<Rightarrow> real" where
  "temporal_sum lo hi G r c = sum_list (map (\<lambda>t. G t r c) [lo..<hi])"

definition temporal_mean :: "nat \<Rightarrow> (nat \<Rightarrow> nat \<Rightarrow> nat \<Rightarrow> real) \<Rightarrow> nat \<Rightarrow> nat \<Rightarrow> real" where
  "temporal_mean T G r c = temporal_sum 0 T G r c / real T"

section \<open>The stacked array of the run\<close>

definition grid_volumes :: "nat \<Rightarrow> nat \<Rightarrow> nat \<Rightarrow> real ndarray list \<Rightarrow> bool" where
  "grid_volumes L R C vs \<longleftrightarrow> vs \<noteq> [] \<and> list_all (\<lambda>v. nd_shape v = [L, R, C] \<and> nd_wf v) vs"

lemma stack4:
  assumes vs: "grid_volumes L R C vs" and X: "np_stack vs = Inr X"
  shows "nd_shape X = [length vs, L, R, C]" and "nd_wf X"
    and "t < length vs \<Longrightarrow> q < L * R * C \<Longrightarrow> nd_data X ! (t * (L * R * C) + q) = nd_data (vs ! t) ! q"
proof -
  from vs obtain a rest where vs_eq: "vs = a # rest" and sh: "nd_shape a = [L, R, C]"
    by (cases vs) (auto simp: grid_volumes_def)
  show "nd_shape X = [length vs, L, R, C]"
    using np_stack_Inr(1) [of a rest X] X sh by (simp add: vs_eq)
  from vs have wf: "list_all nd_wf vs" by (auto simp: grid_volumes_def list_all_iff)
  from wf X show "nd_wf X" by (rule nd_wf_np_stack)
  assume "t < length vs" and "q < L * R * C"
  with np_stack_nth [OF wf X] sh show "nd_data X ! (t * (L * R * C) + q) = nd_data (vs ! t) ! q"
    by (simp add: vs_eq mult.assoc)
qed

lemma layer_offset: "(t * L + l) * (R * C) + p = t * (L * R * C) + (l * (R * C) + (p::nat))"
  by (simp add: algebra_simps)

lemma layer_block_less: "l < L \<Longrightarrow> p < R * C \<Longrightarrow> l * (R * C) + p < L * R * (C::nat)"
  using mult_block_less [of l L p "R * C"] by (simp add: mult.assoc)

lemma data_eq_map:
  assumes "length xs = n" and "\<And>i. i < n \<Longrightarrow> xs ! i = f i"
  shows "xs = map f [0..<n]"
  using assms by (intro nth_equalityI) simp_all

text \<open>Line 79 cell by cell: the layer sum of cell \<open>(r, c)\<close> averaged over the \<open>T\<close> steps.\<close>

lemma all_time_2D_stack:
  assumes vs: "grid_volumes L R C vs" and X: "np_stack vs = Inr X"
  shows "all_time_2D X =
         Inr \<lparr>nd_shape = [R, C],
              nd_data = map (\<lambda>p. sum_list (map (\<lambda>t. sum_list (map (\<lambda>l. nd_data (vs ! t) ! (l * (R * C) + p))
                          [0..<L])) [0..<length vs]) / real (length vs)) [0..<R * C]\<rparr>"
proof -
  let ?T = "length vs"
  note shX = stack4(1) [OF vs X] and elX = stack4(3) [OF vs X]
  define S where "S = nd_over_axis X 1 (\<lambda>b i. sum_list (map (\<lambda>j. nd_axis_elem X 1 b j i) [0..<L]))"
  have sum1: "np_sum_axis X 1 = Inr S" by (simp add: np_sum_axis_def S_def shX)
  have shS: "nd_shape S = [?T, R, C]" by (simp add: S_def shX nd_drop_axis_def)
  have elS: "nd_data S ! (t * (R * C) + p) = sum_list (map (\<lambda>l. nd_data (vs ! t) ! (l * (R * C) + p)) [0..<L])"
    if "t < ?T" and "p < R * C" for t p
  proof -
    have "nd_data S ! (t * (R * C) + p) = sum_list (map (\<lambda>j. nd_axis_elem X 1 t j p) [0..<L])"
      using nd_over_axis_nth [of t X 1 p] that by (simp add: S_def shX nd_outer_def nd_inner_def)
    also have "\<dots> = sum_list (map (\<lambda>l. nd_data (vs ! t) ! (l * (R * C) + p)) [0..<L])"
      using that by (intro arg_cong [where f = sum_list] map_cong refl)
        (simp add: nd_axis_elem_def shX nd_inner_def layer_offset elX layer_block_less)
    finally show ?thesis .
  qed
  define S2 where "S2 = nd_over_axis S 0 (\<lambda>b i. sum_list (map (\<lambda>j. nd_axis_elem S 0 b j i) [0..<?T]))"
  have sum0: "np_sum_axis S 0 = Inr S2" by (simp add: np_sum_axis_def S2_def shS)
  have lenS2: "length (nd_data S2) = R * C"
    by (simp add: S2_def length_nd_over_axis shS nd_outer_def nd_inner_def)
  have elS2: "nd_data S2 ! p = sum_list (map (\<lambda>t. nd_data S ! (t * (R * C) + p)) [0..<?T])"
    if "p < R * C" for p
  proof -
    have "nd_data S2 ! (0 * nd_inner (nd_shape S) 0 + p) =
          sum_list (map (\<lambda>j. nd_axis_elem S 0 0 j p) [0..<?T])"
      unfolding S2_def using that by (intro nd_over_axis_nth) (simp_all add: shS nd_outer_def nd_inner_def)
    then show ?thesis by (simp add: shS nd_inner_def nd_axis_elem_def)
  qed
  have T0: "0 < ?T" using vs by (simp add: grid_volumes_def)
  have "all_time_2D X = Inr (S2\<lparr>nd_data := map (\<lambda>x. x / real ?T) (nd_data S2)\<rparr>)"
    using sum1 sum0 T0 by (simp add: all_time_2D_def np_full_view4_def shX np_mean_axis_def shS)
  moreover have "nd_shape S2 = [R, C]" by (simp add: S2_def shS nd_drop_axis_def)
  moreover have "map (\<lambda>x. x / real ?T) (nd_data S2) =
    map (\<lambda>p. sum_list (map (\<lambda>t. sum_list (map (\<lambda>l. nd_data (vs ! t) ! (l * (R * C) + p))
       [0..<L])) [0..<?T]) / real ?T) [0..<R * C]"
  proof (rule data_eq_map)
    show "length (map (\<lambda>x. x / real ?T) (nd_data S2)) = R * C" by (simp add: lenS2)
  next
    fix p assume p: "p < R * C"
    have eq: "map (\<lambda>t. nd_data S ! (t * (R * C) + p)) [0..<?T] =
          map (\<lambda>t. sum_list (map (\<lambda>l. nd_data (vs ! t) ! (l * (R * C) + p)) [0..<L])) [0..<?T]"
      using p by (intro map_cong refl) (simp add: elS)
    have "map (\<lambda>x. x / real ?T) (nd_data S2) ! p = nd_data S2 ! p / real ?T"
      using p lenS2 by simp
    also have "\<dots> = sum_list (map (\<lambda>t. nd_data S ! (t * (R * C) + p)) [0..<?T]) / real ?T"
      by (simp only: elS2 [OF p])
    also have "\<dots> = sum_list (map (\<lambda>t. sum_list (map (\<lambda>l. nd_data (vs ! t) ! (l * (R * C) + p))
                        [0..<L])) [0..<?T]) / real ?T"
      by (simp only: eq)
    finally show "map (\<lambda>x. x / real ?T) (nd_data S2) ! p =
      sum_list (map (\<lambda>t. sum_list (map (\<lambda>l. nd_data (vs ! t) ! (l * (R * C) + p)) [0..<L])) [0..<?T]) / real ?T" .
  qed
  ultimately show ?thesis by (simp add: S2_def nd_over_axis_def)
qed

lemma sum_list_shift_upt:
  "sum_list (map (\<lambda>t. f (s + t)) [0..<m]) = sum_list (map f [s..<s + m])"
proof -
  have "[s..<s + m] = map (\<lambda>i. i + s) [0..<m]" by (simp add: map_add_upt add.commute)
  then show ?thesis by (simp add: comp_def add.commute)
qed

text \<open>
  Line 111 cell by cell: layer 0 of cell \<open>(r, c)\<close> summed over the time steps
  \<open>min 10 T, \<dots>, min 20 T - 1\<close> (Python clamps the slice to the \<open>T\<close> steps present).
\<close>

lemma lay1_window_stack:
  assumes vs: "grid_volumes L R C vs" and X: "np_stack vs = Inr X" and L: "0 < L"
  shows "lay1_window X =
         Inr \<lparr>nd_shape = [R, C],
              nd_data = map (\<lambda>p. sum_list (map (\<lambda>t. nd_data (vs ! t) ! p)
                          [min 10 (length vs)..<min 20 (length vs)])) [0..<R * C]\<rparr>"
proof -
  let ?T = "length vs" and ?N = "L * R * C"
  let ?s = "min 10 ?T" and ?m = "min 20 ?T - min 10 ?T"
  note shX = stack4(1) [OF vs X] and wfX = stack4(2) [OF vs X] and elX = stack4(3) [OF vs X]
  define W where "W = \<lparr>nd_shape = ?m # [L, R, C],
    nd_data = take (?m * prod_list [L, R, C]) (drop (?s * prod_list [L, R, C]) (nd_data X))\<rparr>"
  have slice: "np_slice0 X 10 20 = Inr W" unfolding W_def by (rule np_slice0_Cons [OF shX])
  have elW: "nd_data W ! (t * ?N + q) = nd_data (vs ! (?s + t)) ! q" if "t < ?m" and "q < ?N" for t q
  proof -
    have fits: "(?s + ?m) * ?N \<le> length (nd_data X)"
      using slice0_fits [OF wfX shX, of 10 20] by (simp add: mult.assoc)
    have "nd_data W ! (t * ?N + q) = nd_data X ! ((?s + t) * ?N + q)"
      unfolding W_def using take_drop_blocks_nth [OF that fits] by (simp add: mult.assoc)
    also have "\<dots> = nd_data (vs ! (?s + t)) ! q" using that by (intro elX) simp_all
    finally show ?thesis .
  qed
  define Y where "Y = nd_over_axis W 1 (\<lambda>b i. nd_axis_elem W 1 b 0 i)"
  have take: "np_take_axis W 1 0 = Inr Y" using L by (simp add: np_take_axis_def W_def Y_def)
  have shY: "nd_shape Y = [?m, R, C]" by (simp add: Y_def W_def nd_drop_axis_def)
  have elY: "nd_data Y ! (t * (R * C) + p) = nd_data (vs ! (?s + t)) ! p" if "t < ?m" and "p < R * C" for t p
  proof -
    have "nd_data Y ! (t * nd_inner (nd_shape W) 1 + p) = nd_axis_elem W 1 t 0 p"
      unfolding Y_def using that by (intro nd_over_axis_nth) (simp_all add: W_def nd_outer_def nd_inner_def)
    also have "\<dots> = nd_data W ! (t * ?N + p)"
      by (simp add: nd_axis_elem_def W_def nd_inner_def algebra_simps)
    also have "\<dots> = nd_data (vs ! (?s + t)) ! p"
      using that L layer_block_less [of 0 L p R C] by (intro elW) simp_all
    finally show ?thesis by (simp add: W_def nd_inner_def)
  qed
  define Z where "Z = nd_over_axis Y 0 (\<lambda>b i. sum_list (map (\<lambda>j. nd_axis_elem Y 0 b j i) [0..<?m]))"
  have sum0: "np_sum_axis Y 0 = Inr Z" by (simp add: np_sum_axis_def Z_def shY)
  have "lay1_window X = Inr Z"
    using slice take sum0 by (simp add: lay1_window_def np_full_view4_def shX)
  moreover have "nd_shape Z = [R, C]" by (simp add: Z_def shY nd_drop_axis_def)
  moreover have "nd_data Z = map (\<lambda>p. sum_list (map (\<lambda>t. nd_data (vs ! t) ! p) [?s..<min 20 ?T])) [0..<R * C]"
  proof (rule data_eq_map)
    show "length (nd_data Z) = R * C"
      by (simp add: Z_def length_nd_over_axis shY nd_outer_def nd_inner_def)
  next
    fix p assume p: "p < R * C"
    have "nd_data Z ! (0 * nd_inner (nd_shape Y) 0 + p) = sum_list (map (\<lambda>j. nd_axis_elem Y 0 0 j p) [0..<?m])"
      unfolding Z_def using p by (intro nd_over_axis_nth) (simp_all add: shY nd_outer_def nd_inner_def)
    also have "\<dots> = sum_list (map (\<lambda>t. nd_data (vs ! (?s + t)) ! p) [0..<?m])"
      using p by (intro arg_cong [where f = sum_list] map_cong refl) (simp add: nd_axis_elem_def shY nd_inner_def elY)
    also have "\<dots> = sum_list (map (\<lambda>t. nd_data (vs ! t) ! p) [?s..<min 20 ?T])"
      by (simp add: sum_list_shift_upt [where f = "\<lambda>t. nd_data (vs ! t) ! p"])
    finally show "nd_data Z ! p = sum_list (map (\<lambda>t. nd_data (vs ! t) ! p) [?s..<min 20 ?T])"
      by (simp add: shY nd_inner_def)
  qed
  ultimately show ?thesis by (simp add: Z_def nd_over_axis_def)
qed

lemma post_process_grid_volumes:
  assumes "post_process L R C bf text = Inr X" and "bf_kstpkper bf \<noteq> []"
  obtains vs where "list_all2 (\<lambda>k v. process_step [L, R, C] bf text (id_dict_spec L R C) k = Inr v) (bf_kstpkper bf) vs"
    and "grid_volumes L R C vs" and "np_stack vs = Inr X"
proof -
  obtain vs where all: "list_all2 (\<lambda>k v. process_step [L, R, C] bf text (id_dict_spec L R C) k = Inr v) (bf_kstpkper bf) vs"
    and sh: "list_all (\<lambda>v. nd_shape v = [L, R, C] \<and> nd_wf v) vs" and st: "np_stack vs = Inr X"
    using assms(1) by (rule post_process_volumes)
  from all assms(2) have "vs \<noteq> []" by (auto simp: list_all2_Nil2)
  with sh have "grid_volumes L R C vs" by (simp add: grid_volumes_def)
  from all this st show ?thesis by (rule that)
qed

lemma example_file_run:
  "post_process 1 1 2 example_file river_leakage = Inr \<lparr>nd_shape = [2, 1, 1, 2], nd_data = [1, 1, 1, 2]\<rparr>"
proof -
  have "list_all2 (\<lambda>k rs. read_step example_file river_leakage k = Inr rs \<and> in_range (1 * 1 * 2) rs)
          (bf_kstpkper example_file) [[(0, 1), (1, 1)], [(0, 1), (1, 2)]]"
    by (simp add: example_file_def read_step_def np_array_first_def in_range_def)
  from post_process_histograms_eq [OF this] show ?thesis
    by (simp add: example_file_def upt_rec)
qed

section \<open>Properties of the queries\<close>

text \<open>
  C18. Line 79, \<open>rivflx[:,:,:,:].sum(axis=1).mean(axis=0)\<close>, is the map of the grid
  (shape \<open>(R, C)\<close>) whose cell \<open>p = r*C + c\<close> holds the sum over the layers of that
  cell, averaged over the \<open>T\<close> time steps of the run.
\<close>

theorem all_time_2D_mean:
  assumes "post_process L R C bf text = Inr rivflx" and "bf_kstpkper bf \<noteq> []"
  shows "\<exists>vs. list_all2 (\<lambda>k v. process_step [L, R, C] bf text (id_dict_spec L R C) k = Inr v) (bf_kstpkper bf) vs \<and>
           all_time_2D rivflx =
             Inr \<lparr>nd_shape = [R, C],
                  nd_data = map (\<lambda>p. sum_list (map (\<lambda>t. sum_list (map (\<lambda>l. nd_data (vs ! t) ! (l * (R * C) + p))
                              [0..<L])) [0..<length vs]) / real (length vs)) [0..<R * C]\<rparr>"
proof -
  obtain vs where all: "list_all2 (\<lambda>k v. process_step [L, R, C] bf text (id_dict_spec L R C) k = Inr v) (bf_kstpkper bf) vs"
    and vs: "grid_volumes L R C vs" and st: "np_stack vs = Inr rivflx"
    using assms by (rule post_process_grid_volumes)
  with all_time_2D_stack [OF vs st] show ?thesis by blast
qed

theorem all_time_2D_mean_witness:
  "post_process 1 1 2 example_file river_leakage = Inr \<lparr>nd_shape = [2, 1, 1, 2], nd_data = [1, 1, 1, 2]\<rparr> \<and>
   bf_kstpkper example_file \<noteq> [] \<and>
   (\<exists>vs. list_all2 (\<lambda>k v. process_step [1, 1, 2] example_file river_leakage (id_dict_spec 1 1 2) k = Inr v)
           (bf_kstpkper example_file) vs \<and>
         all_time_2D \<lparr>nd_shape = [2, 1, 1, 2], nd_data = [1, 1, 1, 2]\<rparr> =
           Inr \<lparr>nd_shape = [1, 2],
                nd_data = map (\<lambda>p. sum_list (map (\<lambda>t. sum_list (map (\<lambda>l. nd_data (vs ! t) ! (l * (1 * 2) + p))
                            [0..<1])) [0..<length vs]) / real (length vs)) [0..<1 * 2]\<rparr>)"
proof -
  have ne: "bf_kstpkper example_file \<noteq> []" by (simp add: example_file_def)
  from all_time_2D_mean [OF example_file_run ne] example_file_run ne show ?thesis by blast
qed

text \<open>
  C19. Line 111, \<open>rivflx[10:20, 0, :, :].sum(axis=0)\<close>, is the map whose cell \<open>p\<close>
  holds layer 0 of that cell summed over the time steps \<open>min 10 T\<close> to
  \<open>min 20 T - 1\<close>: the half-open slice clamped to the \<open>T\<close> steps of the run.
\<close>

theorem lay1_window_sum:
  assumes "post_process L R C bf text = Inr rivflx" and "bf_kstpkper bf \<noteq> []" and "0 < L"
  shows "\<exists>vs. list_all2 (\<lambda>k v. process_step [L, R, C] bf text (id_dict_spec L R C) k = Inr v) (bf_kstpkper bf) vs \<and>
           lay1_window rivflx =
             Inr \<lparr>nd_shape = [R, C],
                  nd_data = map (\<lambda>p. sum_list (map (\<lambda>t. nd_data (vs ! t) ! p)
                              [min 10 (length vs)..<min 20 (length vs)])) [0..<R * C]\<rparr>"
proof -
  obtain vs where all: "list_all2 (\<lambda>k v. process_step [L, R, C] bf text (id_dict_spec L R C) k = Inr v) (bf_kstpkper bf) vs"
    and vs: "grid_volumes L R C vs" and st: "np_stack vs = Inr rivflx"
    using assms(1,2) by (rule post_process_grid_volumes)
  with lay1_window_stack [OF vs st assms(3)] show ?thesis by blast
qed

theorem lay1_window_sum_witness:
  "post_process 1 1 2 example_file river_leakage = Inr \<lparr>nd_shape = [2, 1, 1, 2], nd_data = [1, 1, 1, 2]\<rparr> \<and>
   bf_kstpkper example_file \<noteq> [] \<and> (0::nat) < 1 \<and>
   (\<exists>vs. list_all2 (\<lambda>k v. process_step [1, 1, 2] example_file river_leakage (id_dict_spec 1 1 2) k = Inr v)
           (bf_kstpkper example_file) vs \<and>
         lay1_window \<lparr>nd_shape = [2, 1, 1, 2], nd_data = [1, 1, 1, 2]\<rparr> =
           Inr \<lparr>nd_shape = [1, 2],
                nd_data = map (\<lambda>p. sum_list (map (\<lambda>t. nd_data (vs ! t) ! p)
                            [min 10 (length vs)..<min 20 (length vs)])) [0..<1 * 2]\<rparr>)"
proof -
  have ne: "bf_kstpkper example_file \<noteq> []" by (simp add: example_file_def)
  have l: "(0::nat) < 1" by simp
  from lay1_window_sum [OF example_file_run ne l] example_file_run ne l show ?thesis by blast
qed

text \<open>
  C26. With no stored time step the script does not produce an empty result: \<open>rivflx\<close>
  has shape \<open>(0,)\<close> and line 79's \<open>rivflx[:,:,:,:]\<close> raises IndexError.
\<close>

theorem empty_run_queries_fail:
  "bf_kstpkper bf = [] \<Longrightarrow> run_script bf = Inl IndexError"
  by (simp add: run_script_def rivflx_script_def post_process_empty_run_eq script_queries_def
      all_time_2D_def np_full_view4_def)

theorem empty_run_queries_fail_witness:
  "bf_kstpkper \<lparr>bf_kstpkper = [], bf_get_data = (\<lambda>k t. Inr [])\<rparr> = [] \<and>
   run_script \<lparr>bf_kstpkper = [], bf_get_data = (\<lambda>k t. Inr [])\<rparr> = Inl IndexError"
  using empty_run_queries_fail [of "\<lparr>bf_kstpkper = [], bf_get_data = (\<lambda>k t. Inr [])\<rparr>"] by simp


section \<open>The queries on the run's histograms\<close>

lemma script_queries_Inr:
  assumes "script_queries X = Inr out"
  shows "rivflx_total out = np_sum X" and "rivflx_total_acft out = to_acre_ft (np_sum X)"
    and "\<exists>lay1. lay1_window X = Inr lay1 \<and> lay1_total_rivflx_10days out = lay1 \<and> lay1_total_10days_sum out = np_sum lay1"
    and "\<exists>a2d. all_time_2D X = Inr a2d \<and> rivflx_2D_all_time out = a2d \<and> rivflx_2D_all_time_plt out = plot_mask a2d"
  using assms by (auto simp: script_queries_def ebind_eq_Inr)

lemma script_queries_stack_ok:
  assumes "grid_volumes L R C vs" and "np_stack vs = Inr X" and "0 < L"
  shows "\<exists>out. script_queries X = Inr out"
  using all_time_2D_stack [OF assms(1,2)] lay1_window_stack [OF assms] by (simp add: script_queries_def)

lemma histogram_grid_volumes:
  assumes "rss \<noteq> []"
  shows "grid_volumes L R C (map (\<lambda>rs. \<lparr>nd_shape = [L, R, C], nd_data = map (cell_flux rs) [0..<L * R * C]\<rparr>) rss)"
  using assms by (simp add: grid_volumes_def list_all_iff nd_wf_def mult.assoc)

lemma lay1_window_histograms:
  assumes "rss \<noteq> []" and L: "0 < L"
  shows "\<exists>lay1. lay1_window \<lparr>nd_shape = [length rss, L, R, C],
                     nd_data = concat (map (\<lambda>rs. map (cell_flux rs) [0..<L * R * C]) rss)\<rparr> = Inr lay1 \<and>
           np_sum lay1 = sum_list (map (\<lambda>rs. sum_list (map snd (filter (\<lambda>r. 0 \<le> fst r \<and> fst r < int (R * C)) rs)))
                           (drop 10 (take 20 rss)))"
proof -
  let ?h = "\<lambda>rs. \<lparr>nd_shape = [L, R, C], nd_data = map (cell_flux rs) [0..<L * R * C]\<rparr>"
  let ?vs = "map ?h rss" and ?T = "length rss"
  have gv: "grid_volumes L R C ?vs" using assms(1) by (rule histogram_grid_volumes)
  have st: "np_stack ?vs = Inr \<lparr>nd_shape = [length rss, L, R, C],
                     nd_data = concat (map (\<lambda>rs. map (cell_flux rs) [0..<L * R * C]) rss)\<rparr>"
    using assms(1) by (rule histogram_volumes_stack)
  have cell: "map (\<lambda>t. nd_data (?vs ! t) ! p) [min 10 ?T..<min 20 ?T] =
              map (\<lambda>rs. cell_flux rs p) (drop 10 (take 20 rss))" if p: "p < R * C" for p
  proof -
    have pN: "p < L * R * C" using p L layer_block_less [of 0 L p R C] by simp
    have "map (\<lambda>t. nd_data (?vs ! t) ! p) [min 10 ?T..<min 20 ?T] =
          map (\<lambda>t. cell_flux (rss ! t) p) [min 10 ?T..<min 20 ?T]"
      using pN by (intro map_cong refl) simp
    also have "\<dots> = map (\<lambda>rs. cell_flux rs p) (drop 10 (take 20 rss))"
      by (rule map_nth_upt_slice)
    finally show ?thesis .
  qed
  have "sum_list (map (\<lambda>p. sum_list (map (\<lambda>t. nd_data (?vs ! t) ! p) [min 10 ?T..<min 20 ?T])) [0..<R * C]) =
        sum_list (map (\<lambda>p. sum_list (map (\<lambda>rs. cell_flux rs p) (drop 10 (take 20 rss)))) [0..<R * C])"
    using cell by (intro arg_cong [where f = sum_list] map_cong refl) simp
  also have "\<dots> = sum_list (map (\<lambda>rs. sum_list (map (cell_flux rs) [0..<R * C])) (drop 10 (take 20 rss)))"
    by (rule sum_list_map_swap)
  also have "\<dots> = sum_list (map (\<lambda>rs. sum_list (map snd (filter (\<lambda>r. 0 \<le> fst r \<and> fst r < int (R * C)) rs)))
                           (drop 10 (take 20 rss)))"
    by (simp only: sum_cell_flux_upt)
  finally show ?thesis using lay1_window_stack [OF gv st L] by (simp add: np_sum_def)
qed

text \<open>
  C16. The shape of \<open>rivflx\<close> after line 70: a successful run gives a well-formed array
  of shape \<open>(T, L, R, C)\<close> with \<open>T\<close> the number of stored time steps, and of shape
  \<open>(0,)\<close> when there is none.
\<close>

theorem post_process_shape:
  assumes "post_process L R C bf text = Inr X"
  shows "nd_wf X \<and> nd_shape X = (if bf_kstpkper bf = [] then [0] else [length (bf_kstpkper bf), L, R, C])"
proof -
  obtain vs where all: "list_all2 (\<lambda>k v. process_step [L, R, C] bf text (id_dict_spec L R C) k = Inr v) (bf_kstpkper bf) vs"
    and sh: "list_all (\<lambda>v. nd_shape v = [L, R, C] \<and> nd_wf v) vs" and st: "np_stack vs = Inr X"
    using assms by (rule post_process_volumes)
  have wf: "nd_wf X" using sh st by (intro nd_wf_np_stack [OF _ st]) (simp add: list_all_iff)
  have len: "length vs = length (bf_kstpkper bf)" using all by (simp add: list_all2_lengthD)
  show ?thesis
  proof (cases vs)
    case Nil
    with st have "X = \<lparr>nd_shape = [0], nd_data = []\<rparr>" by (simp add: np_stack_def)
    with Nil len show ?thesis by (simp add: nd_wf_def)
  next
    case (Cons a rest)
    with sh have "nd_shape a = [L, R, C]" by simp
    with np_stack_Inr(1) [of a rest X] st Cons len wf show ?thesis by auto
  qed
qed

theorem post_process_shape_witness:
  "post_process 1 1 2 example_file river_leakage = Inr \<lparr>nd_shape = [2, 1, 1, 2], nd_data = [1, 1, 1, 2]\<rparr> \<and>
   nd_wf \<lparr>nd_shape = [2, 1, 1, 2], nd_data = [1, 1, 1, 2 :: real]\<rparr> \<and>
   nd_shape \<lparr>nd_shape = [2, 1, 1, 2], nd_data = [1, 1, 1, 2 :: real]\<rparr> =
     (if bf_kstpkper example_file = [] then [0] else [length (bf_kstpkper example_file), 1, 1, 2])"
  using post_process_shape [OF example_file_run] example_file_run by (simp add: example_file_def)

lemma run_script_Inr_records:
  assumes "bf_kstpkper bf \<noteq> []"
    and "list_all2 (\<lambda>k rs. read_step bf river_leakage k = Inr rs \<and> in_range (2 * 102 * 217) rs) (bf_kstpkper bf) rss"
  shows "\<exists>out. run_script bf = Inr out"
proof -
  have X: "post_process 2 102 217 bf river_leakage =
         Inr \<lparr>nd_shape = [length rss, 2, 102, 217],
              nd_data = concat (map (\<lambda>rs. map (cell_flux rs) [0..<2 * 102 * 217]) rss)\<rparr>"
    by (rule post_process_histograms_eq [OF assms(2,1)])
  then obtain vs where gv: "grid_volumes 2 102 217 vs" and st: "np_stack vs = Inr \<lparr>nd_shape = [length rss, 2, 102, 217],
              nd_data = concat (map (\<lambda>rs. map (cell_flux rs) [0..<2 * 102 * 217]) rss)\<rparr>"
    using assms(1) by (rule post_process_grid_volumes)
  obtain out where "script_queries \<lparr>nd_shape = [length rss, 2, 102, 217],
              nd_data = concat (map (\<lambda>rs. map (cell_flux rs) [0..<2 * 102 * 217]) rss)\<rparr> = Inr out"
    using script_queries_stack_ok [OF gv st] by auto
  with X show ?thesis by (auto simp: run_script_def rivflx_script_def)
qed

lemma run_script_Inr_post_process:
  assumes "run_script bf = Inr out"
  obtains X where "post_process 2 102 217 bf river_leakage = Inr X" and "script_queries X = Inr out"
    and "bf_kstpkper bf \<noteq> []"
proof -
  from assms obtain X where X: "post_process 2 102 217 bf river_leakage = Inr X" and q: "script_queries X = Inr out"
    by (auto simp: run_script_def rivflx_script_def ebind_eq_Inr)
  have "bf_kstpkper bf \<noteq> []"
  proof
    assume "bf_kstpkper bf = []"
    then have "run_script bf = Inl IndexError"
      by (simp add: run_script_def rivflx_script_def post_process_empty_run_eq script_queries_def
          all_time_2D_def np_full_view4_def)
    with assms show False by simp
  qed
  with X q show ?thesis by (rule that)
qed

lemma example_file_records:
  "list_all2 (\<lambda>k rs. read_step example_file river_leakage k = Inr rs \<and> in_range (2 * 102 * 217) rs)
     (bf_kstpkper example_file) [[(0, 1), (1, 1)], [(0, 1), (1, 2)]]"
  by (simp add: example_file_def read_step_def np_array_first_def in_range_def)


lemma slabs_grid_volumes:
  assumes "nd_wf X" and "nd_shape X = [T, L, R, C]" and "0 < T"
  shows "grid_volumes L R C (map (\<lambda>t. \<lparr>nd_shape = [L, R, C],
           nd_data = take (prod_list [L, R, C]) (drop (t * prod_list [L, R, C]) (nd_data X))\<rparr>) [0..<T])"
proof -
  have "length (take (L * (R * C)) (drop (t * (L * (R * C))) (nd_data X))) = L * (R * C)" if "t < T" for t
  proof -
    have "t * (L * (R * C)) + L * (R * C) \<le> T * (L * (R * C))"
      using that by (metis add.commute mult_Suc Suc_leI mult_le_mono1)
    with assms(1,2) show ?thesis by (simp add: nd_wf_def)
  qed
  with assms(3) show ?thesis by (auto simp: grid_volumes_def list_all_iff nd_wf_def)
qed

lemma slab_nth:
  assumes "nd_wf X" and "nd_shape X = [T, L, R, C]" and "t < T" and "l < L" and "p < R * C"
  shows "take (prod_list [L, R, C]) (drop (t * prod_list [L, R, C]) (nd_data X)) ! (l * (R * C) + p) =
         nd_get X [t, l, p div C, p mod C]"
proof -
  have lp: "l * (R * C) + p < L * (R * C)" using layer_block_less [OF assms(4,5)] by (simp add: mult.assoc)
  have fits: "(t + 1) * (L * (R * C)) \<le> length (nd_data X)"
    using assms(1,2,3) by (simp add: nd_wf_def mult_le_mono1 del: mult_Suc)
  have "take (L * (R * C)) (drop (t * (L * (R * C))) (nd_data X)) ! (l * (R * C) + p) =
        nd_data X ! ((0 + t) * (L * (R * C)) + (l * (R * C) + p))"
    using take_drop_blocks_nth [of 0 1 "l * (R * C) + p" "L * (R * C)" t "nd_data X"] lp fits
    by (simp add: take_drop_blocks_nth [of 0 1] algebra_simps)
  moreover have "nd_offset [T, L, R, C] [t, l, p div C, p mod C] = t * (L * (R * C)) + (l * (R * C) + p)"
    using block_decomp(3) [OF assms(5)] by (simp add: algebra_simps)
  ultimately show ?thesis by (simp add: nd_get_def assms(2))
qed

lemma stack_slabs_tensor:
  assumes wf: "nd_wf X" and sh: "nd_shape X = [T, L, R, C]" and T: "0 < T"
  obtains vs where "grid_volumes L R C vs" and "np_stack vs = Inr X" and "length vs = T"
    and "\<And>t l r c. t < T \<Longrightarrow> l < L \<Longrightarrow> r < R \<Longrightarrow> c < C \<Longrightarrow>
           nd_data (vs ! t) ! (l * (R * C) + (r * C + c)) = flux_tensor X t l r c"
proof
  let ?vs = "map (\<lambda>t. \<lparr>nd_shape = [L, R, C],
           nd_data = take (prod_list [L, R, C]) (drop (t * prod_list [L, R, C]) (nd_data X))\<rparr>) [0..<T]"
  show "grid_volumes L R C ?vs" using wf sh T by (rule slabs_grid_volumes)
  show "np_stack ?vs = Inr X" using wf sh T by (rule np_stack_slabs)
  show "length ?vs = T" by simp
  fix t l r c assume "t < T" "l < L" "r < R" "c < C"
  have p: "r * C + c < R * C" using \<open>r < R\<close> \<open>c < C\<close> by (rule mult_block_less)
  have "(r * C + c) div C = r" and "(r * C + c) mod C = c" using \<open>c < C\<close> by simp_all
  with slab_nth [OF wf sh \<open>t < T\<close> \<open>l < L\<close> p] \<open>t < T\<close>
  show "nd_data (?vs ! t) ! (l * (R * C) + (r * C + c)) = flux_tensor X t l r c"
    by (simp add: flux_tensor_def)
qed

lemma all_time_2D_tensor:
  assumes wf: "nd_wf X" and sh: "nd_shape X = [T, L, R, C]" and T: "0 < T"
  shows "\<exists>Y. all_time_2D X = Inr Y \<and> nd_wf Y \<and> nd_shape Y = [R, C] \<and>
           (\<forall>r < R. \<forall>c < C. nd_get Y [r, c] = temporal_mean T (spatial_sum L (flux_tensor X)) r c)"
proof -
  obtain vs where gv: "grid_volumes L R C vs" and st: "np_stack vs = Inr X" and len: "length vs = T"
    and el: "\<And>t l r c. t < T \<Longrightarrow> l < L \<Longrightarrow> r < R \<Longrightarrow> c < C \<Longrightarrow>
           nd_data (vs ! t) ! (l * (R * C) + (r * C + c)) = flux_tensor X t l r c"
    using stack_slabs_tensor [OF wf sh T] by blast
  let ?Y = "\<lparr>nd_shape = [R, C],
              nd_data = map (\<lambda>p. sum_list (map (\<lambda>t. sum_list (map (\<lambda>l. nd_data (vs ! t) ! (l * (R * C) + p))
                          [0..<L])) [0..<length vs]) / real (length vs)) [0..<R * C]\<rparr>"
  have cell: "nd_get ?Y [r, c] = temporal_mean T (spatial_sum L (flux_tensor X)) r c"
    if r: "r < R" and c: "c < C" for r c
  proof -
    have p: "r * C + c < R * C" using r c by (rule mult_block_less)
    have "sum_list (map (\<lambda>t. sum_list (map (\<lambda>l. nd_data (vs ! t) ! (l * (R * C) + (r * C + c))) [0..<L]))
            [0..<T]) = sum_list (map (\<lambda>t. spatial_sum L (flux_tensor X) t r c) [0..<T])"
      unfolding spatial_sum_def
    proof (intro arg_cong [where f = sum_list] map_cong refl)
      fix t l assume "t \<in> set [0..<T]" and "l \<in> set [0..<L]"
      then have "t < T" and "l < L" by simp_all
      with el [OF this r c] show "nd_data (vs ! t) ! (l * (R * C) + (r * C + c)) = flux_tensor X t l r c" by simp
    qed
    then show ?thesis using p len by (simp add: nd_get_def temporal_mean_def temporal_sum_def)
  qed
  have "all_time_2D X = Inr ?Y" by (rule all_time_2D_stack [OF gv st])
  moreover have "nd_wf ?Y" by (simp add: nd_wf_def)
  ultimately show ?thesis using cell by auto
qed

lemma lay1_window_tensor:
  assumes wf: "nd_wf X" and sh: "nd_shape X = [T, L, R, C]" and T: "0 < T" and L: "0 < L"
  shows "\<exists>Z. lay1_window X = Inr Z \<and> nd_shape Z = [R, C] \<and>
           (\<forall>r < R. \<forall>c < C. nd_get Z [r, c] = temporal_sum (min 10 T) (min 20 T) (layer_of 0 (flux_tensor X)) r c)"
proof -
  obtain vs where gv: "grid_volumes L R C vs" and st: "np_stack vs = Inr X" and len: "length vs = T"
    and el: "\<And>t l r c. t < T \<Longrightarrow> l < L \<Longrightarrow> r < R \<Longrightarrow> c < C \<Longrightarrow>
           nd_data (vs ! t) ! (l * (R * C) + (r * C + c)) = flux_tensor X t l r c"
    using stack_slabs_tensor [OF wf sh T] by blast
  let ?Z = "\<lparr>nd_shape = [R, C],
              nd_data = map (\<lambda>p. sum_list (map (\<lambda>t. nd_data (vs ! t) ! p)
                          [min 10 (length vs)..<min 20 (length vs)])) [0..<R * C]\<rparr>"
  have cell: "nd_get ?Z [r, c] = temporal_sum (min 10 T) (min 20 T) (layer_of 0 (flux_tensor X)) r c"
    if r: "r < R" and c: "c < C" for r c
  proof -
    have p: "r * C + c < R * C" using r c by (rule mult_block_less)
    have "sum_list (map (\<lambda>t. nd_data (vs ! t) ! (r * C + c)) [min 10 T..<min 20 T]) =
          sum_list (map (\<lambda>t. layer_of 0 (flux_tensor X) t r c) [min 10 T..<min 20 T])"
      unfolding layer_of_def
    proof (intro arg_cong [where f = sum_list] map_cong refl)
      fix t assume "t \<in> set [min 10 T..<min 20 T]"
      then have "t < T" by simp
      with el [OF this L r c] show "nd_data (vs ! t) ! (r * C + c) = flux_tensor X t 0 r c" by simp
    qed
    then show ?thesis using p len by (simp add: nd_get_def temporal_sum_def)
  qed
  have "lay1_window X = Inr ?Z" by (rule lay1_window_stack [OF gv st L])
  then show ?thesis using cell by auto
qed

lemma nd_get_plot_mask:
  assumes "nd_wf a" and "nd_shape a = [R, C]" and "r < R" and "c < C"
  shows "nd_get (plot_mask a) [r, c] = (if nd_get a [r, c] = 0 then None else Some (nd_get a [r, c]))"
proof -
  have "r * C + c < R * C" using assms(3,4) by (rule mult_block_less)
  then show ?thesis using assms(1,2) by (simp add: plot_mask_def nd_get_def nd_wf_def)
qed
text \<open>
  C21. The queries refine the spec's query layer: on any well-formed array of shape
  \<open>(T, L, R, C)\<close> with \<open>T, L > 0\<close>, line 79 gives at every cell \<open>(r, c)\<close> the
  spec's \<open>temporalMean\<close> of the \<open>spatialSum\<close> over the layers, and line 111 gives the
  spec's \<open>temporalSum\<close> of layer 0 over the half-open range \<open>[min 10 T, min 20 T)\<close>.
\<close>

theorem queries_refine_spec:
  assumes wf: "nd_wf X" and sh: "nd_shape X = [T, L, R, C]" and T: "0 < T" and L: "0 < L"
  shows "\<exists>Y Z. all_time_2D X = Inr Y \<and> lay1_window X = Inr Z \<and> nd_shape Y = [R, C] \<and> nd_shape Z = [R, C] \<and>
           (\<forall>r < R. \<forall>c < C.
              nd_get Y [r, c] = temporal_mean T (spatial_sum L (flux_tensor X)) r c \<and>
              nd_get Z [r, c] = temporal_sum (min 10 T) (min 20 T) (layer_of 0 (flux_tensor X)) r c)"
  using all_time_2D_tensor [OF wf sh T] lay1_window_tensor [OF wf sh T L] by blast

theorem queries_refine_spec_witness:
  "nd_wf \<lparr>nd_shape = [2, 1, 1, 2], nd_data = [1, 1, 1, 2 :: real]\<rparr> \<and>
   nd_shape \<lparr>nd_shape = [2, 1, 1, 2], nd_data = [1, 1, 1, 2 :: real]\<rparr> = [2, 1, 1, 2] \<and>
   (\<exists>Y Z. all_time_2D \<lparr>nd_shape = [2, 1, 1, 2], nd_data = [1, 1, 1, 2]\<rparr> = Inr Y \<and>
          lay1_window \<lparr>nd_shape = [2, 1, 1, 2], nd_data = [1, 1, 1, 2]\<rparr> = Inr Z \<and>
          nd_shape Y = [1, 2] \<and> nd_shape Z = [1, 2] \<and>
          nd_get Y [0, 1] = temporal_mean 2 (spatial_sum 1 (flux_tensor \<lparr>nd_shape = [2, 1, 1, 2], nd_data = [1, 1, 1, 2]\<rparr>)) 0 1 \<and>
          nd_get Y [0, 1] = 3 / 2 \<and>
          nd_get Z [0, 1] = temporal_sum (min 10 2) (min 20 2)
            (layer_of 0 (flux_tensor \<lparr>nd_shape = [2, 1, 1, 2], nd_data = [1, 1, 1, 2]\<rparr>)) 0 1)"
proof -
  let ?X = "\<lparr>nd_shape = [2, 1, 1, 2], nd_data = [1, 1, 1, 2 :: real]\<rparr>"
  have wf: "nd_wf ?X" by (simp add: nd_wf_def)
  have sh: "nd_shape ?X = [2, 1, 1, 2]" by simp
  obtain Y Z where Y: "all_time_2D ?X = Inr Y" and Z: "lay1_window ?X = Inr Z"
    and shY: "nd_shape Y = [1, 2]" and shZ: "nd_shape Z = [1, 2]"
    and cells: "\<forall>r < 1. \<forall>c < 2.
              nd_get Y [r, c] = temporal_mean 2 (spatial_sum 1 (flux_tensor ?X)) r c \<and>
              nd_get Z [r, c] = temporal_sum (min 10 2) (min 20 2) (layer_of 0 (flux_tensor ?X)) r c"
    using queries_refine_spec [OF wf sh] by auto
  have y: "nd_get Y [0, 1] = temporal_mean 2 (spatial_sum 1 (flux_tensor ?X)) 0 1"
    and z: "nd_get Z [0, 1] = temporal_sum (min 10 2) (min 20 2) (layer_of 0 (flux_tensor ?X)) 0 1"
    using cells by simp_all
  have v: "temporal_mean 2 (spatial_sum 1 (flux_tensor ?X)) 0 1 = 3 / 2"
    by (simp add: temporal_mean_def temporal_sum_def spatial_sum_def flux_tensor_def nd_get_def upt_rec)
  from Y Z shY shZ y z v wf show ?thesis by auto
qed


text \<open>
  C22. The plotting mask of lines 118--119 is exact: on a well-formed array of shape
  \<open>(T, L, R, C)\<close> with \<open>T > 0\<close> on which the queries succeed, a cell \<open>(r, c)\<close> of
  \<open>rivflx_2D_all_time_plt\<close> is NaN exactly when the time-total of its layer sum is zero,
  and otherwise holds the spec's \<open>temporalMean\<close>; a river cell whose gains and losses
  cancel is therefore masked like a cell without river.
\<close>

theorem plot_mask_cells:
  assumes wf: "nd_wf X" and sh: "nd_shape X = [T, L, R, C]" and T: "0 < T"
    and q: "script_queries X = Inr out" and r: "r < R" and c: "c < C"
  shows "nd_get (rivflx_2D_all_time_plt out) [r, c] =
           (if temporal_sum 0 T (spatial_sum L (flux_tensor X)) r c = 0 then None
            else Some (temporal_mean T (spatial_sum L (flux_tensor X)) r c))"
proof -
  obtain Y where Y: "all_time_2D X = Inr Y" and wfY: "nd_wf Y" and shY: "nd_shape Y = [R, C]"
    and cell: "nd_get Y [r, c] = temporal_mean T (spatial_sum L (flux_tensor X)) r c"
    using all_time_2D_tensor [OF wf sh T] r c by blast
  have plt: "rivflx_2D_all_time_plt out = plot_mask Y"
    using script_queries_Inr(4) [OF q] Y by auto
  have "temporal_mean T (spatial_sum L (flux_tensor X)) r c = 0 \<longleftrightarrow>
        temporal_sum 0 T (spatial_sum L (flux_tensor X)) r c = 0"
    using T by (simp add: temporal_mean_def)
  then show ?thesis using nd_get_plot_mask [OF wfY shY r c] plt cell by simp
qed

theorem plot_mask_cells_witness:
  "\<exists>out. script_queries \<lparr>nd_shape = [2, 1, 1, 2], nd_data = [1, 1, - 1, 2 :: real]\<rparr> = Inr out \<and>
     nd_get (rivflx_2D_all_time_plt out) [0, 0] = None \<and>
     nd_get (rivflx_2D_all_time_plt out) [0, 1] = Some (3 / 2)"
proof -
  let ?X = "\<lparr>nd_shape = [2, 1, 1, 2], nd_data = [1, 1, - 1, 2 :: real]\<rparr>"
  have wf: "nd_wf ?X" by (simp add: nd_wf_def)
  have sh: "nd_shape ?X = [2, 1, 1, 2]" by simp
  obtain out where q: "script_queries ?X = Inr out"
    using all_time_2D_tensor [OF wf sh] lay1_window_tensor [OF wf sh] by (force simp: script_queries_def)
  have s0: "temporal_sum 0 2 (spatial_sum 1 (flux_tensor ?X)) 0 0 = 0"
    and s1: "temporal_sum 0 2 (spatial_sum 1 (flux_tensor ?X)) 0 1 = 3"
    and m1: "temporal_mean 2 (spatial_sum 1 (flux_tensor ?X)) 0 1 = 3 / 2"
    by (simp_all add: temporal_mean_def temporal_sum_def spatial_sum_def flux_tensor_def nd_get_def upt_rec)
  have "nd_get (rivflx_2D_all_time_plt out) [0, 0] = None"
    using plot_mask_cells [OF wf sh _ q, of 0 0] s0 by simp
  moreover have "nd_get (rivflx_2D_all_time_plt out) [0, 1] = Some (3 / 2)"
    using plot_mask_cells [OF wf sh _ q, of 0 1] s1 m1 by simp
  ultimately show ?thesis using q by blast
qed

end
