(* ===== verification/TimeLoop.thy ===== *)
theory TimeLoop
  imports FluxAccumulator
begin

text \<open>
  The loop over the stored time steps, lines 43--67, as a small-step transition system.
  Its state is what the loop changes: the keys of \<open>ckstpkper\<close> not yet visited, the
  list \<open>rivflx\<close> (line 46, appended on line 66), the keys whose progress message has been
  printed (line 67), and whether an exception has ended the loop. One step is one
  iteration: it takes the next key, runs lines 51--64 on it (\<open>process_step\<close>) and either
  appends the volume and prints, or stops with the exception. The lemmas show, by rule
  induction, that every state reached from the start satisfies the invariant tying
  \<open>rivflx\<close> and the printed keys to a prefix of \<open>ckstpkper\<close>, and derive from
  it the order of the progress messages at the end of the loop.
\<close>

section \<open>The state of the loop and its steps\<close>

text \<open>Whether the loop is still running or has been ended by an exception.\<close>

datatype loop_status = Running | Raised py_error

record loop_state =
  ls_pending :: "kstpkper list"
  ls_rivflx :: "real ndarray list"
  ls_printed :: "kstpkper list"
  ls_status :: loop_status

text \<open>Lines 43--46: \<open>ckstpkper = modobj.get_kstpkper()\<close>, \<open>rivflx = []\<close>.\<close>

definition loop_init :: "kstpkper list \<Rightarrow> loop_state" where
  "loop_init ckstpkper = \<lparr>ls_pending = ckstpkper, ls_rivflx = [], ls_printed = [], ls_status = Running\<rparr>"

text \<open>
  One iteration of \<open>for current_kstpkper in ckstpkper\<close> (lines 50--67): the step's volume
  is appended and its key printed, or the exception of lines 51--64 ends the loop.
\<close>

inductive loop_step ::
  "nat list \<Rightarrow> budget_file \<Rightarrow> string \<Rightarrow> (int \<rightharpoonup> coord) \<Rightarrow> loop_state \<Rightarrow> loop_state \<Rightarrow> bool"
  for grid :: "nat list" and bf :: budget_file and name :: string and id_dict :: "int \<rightharpoonup> coord" where
  step_ok: "ls_status s = Running \<Longrightarrow> ls_pending s = k # ks \<Longrightarrow>
    process_step grid bf name id_dict k = Inr riv_flx_step \<Longrightarrow>
    loop_step grid bf name id_dict s
      (s\<lparr>ls_pending := ks, ls_rivflx := ls_rivflx s @ [riv_flx_step], ls_printed := ls_printed s @ [k]\<rparr>)"
| step_raise: "ls_status s = Running \<Longrightarrow> ls_pending s = k # ks \<Longrightarrow>
    process_step grid bf name id_dict k = Inl e \<Longrightarrow>
    loop_step grid bf name id_dict s (s\<lparr>ls_pending := ks, ls_status := Raised e\<rparr>)"

code_pred loop_step .

text \<open>The loop has ended: no key is left, or an exception was raised.\<close>

definition loop_final :: "loop_state \<Rightarrow> bool" where
  "loop_final s \<longleftrightarrow> ls_pending s = [] \<or> ls_status s \<noteq> Running"

text \<open>What the loop leaves to line 70: the list \<open>rivflx\<close>, or the exception.\<close>

text \<open>
  The invariant of the loop: the volumes in \<open>rivflx\<close> are those of the printed keys, in
  order; while running, the printed keys followed by the pending ones are \<open>ckstpkper\<close>;
  after an exception, the key that raised it sits between them.
\<close>

definition loop_inv ::
  "nat list \<Rightarrow> budget_file \<Rightarrow> string \<Rightarrow> (int \<rightharpoonup> coord) \<Rightarrow> kstpkper list \<Rightarrow> loop_state \<Rightarrow> bool" where
  "loop_inv grid bf name id_dict ckstpkper s \<longleftrightarrow>
     list_all2 (\<lambda>k v. process_step grid bf name id_dict k = Inr v) (ls_printed s) (ls_rivflx s) \<and>
     (case ls_status s of
        Running \<Rightarrow> ckstpkper = ls_printed s @ ls_pending s
      | Raised e \<Rightarrow>
          (case drop (length (ls_printed s)) ckstpkper of
             [] \<Rightarrow> False
           | k # rest \<Rightarrow> take (length (ls_printed s)) ckstpkper = ls_printed s \<and> rest = ls_pending s \<and>
                        process_step grid bf name id_dict k = Inl e))"

text \<open>A budget file with one time step and one record, for the examples.\<close>

definition one_record_file :: budget_file where
  "one_record_file = \<lparr>bf_kstpkper = [(0, 0)], bf_get_data = (\<lambda>k t. Inr [[(0, 1)]])\<rparr>"

section \<open>The invariant\<close>

lemma loop_inv_init: "loop_inv grid bf name d ks (loop_init ks)"
  by (simp add: loop_inv_def loop_init_def)

lemma loop_step_inv:
  assumes "loop_step grid bf name d s t" and "loop_inv grid bf name d ks s"
  shows "loop_inv grid bf name d ks t"
  using assms
proof (induction rule: loop_step.induct)
  case (step_ok s k ks' v)
  then show ?case by (simp add: loop_inv_def list_all2_appendI)
next
  case (step_raise s k ks' e)
  then have "ks = ls_printed s @ k # ks'" and "list_all2 (\<lambda>k v. process_step grid bf name d k = Inr v) (ls_printed s) (ls_rivflx s)"
    by (simp_all add: loop_inv_def)
  with step_raise.hyps(3) show ?case by (simp add: loop_inv_def)
qed

lemma loop_invariant:
  "(loop_step grid bf name d)\<^sup>*\<^sup>* (loop_init ks) s \<Longrightarrow> loop_inv grid bf name d ks s"
proof (induction rule: rtranclp_induct)
  case base
  show ?case by (rule loop_inv_init)
next
  case (step t u)
  from step.hyps(2) step.IH show ?case by (rule loop_step_inv)
qed

section \<open>Properties of the loop\<close>

text \<open>
  C15. When the loop ends normally, a progress message has been printed for every key of
  \<open>get_kstpkper()\<close>, once and in order, and \<open>rivflx\<close> holds their volumes in that
  order; when it ends with an exception, the messages are those of the keys before the
  key that raised it.
\<close>

theorem loop_prints_in_order:
  assumes "(loop_step grid bf name d)\<^sup>*\<^sup>* (loop_init ks) t" and "loop_final t"
  shows "(ls_status t = Running \<longrightarrow>
            ls_printed t = ks \<and> list_all2 (\<lambda>k v. process_step grid bf name d k = Inr v) ks (ls_rivflx t)) \<and>
         (\<forall>e. ls_status t = Raised e \<longrightarrow>
            (\<exists>k rest. ks = ls_printed t @ k # rest \<and> process_step grid bf name d k = Inl e))"
proof -
  have inv: "loop_inv grid bf name d ks t" using assms(1) by (rule loop_invariant)
  show ?thesis
  proof (cases "ls_status t")
    case Running
    with assms(2) have "ls_pending t = []" by (simp add: loop_final_def)
    with inv Running show ?thesis by (simp add: loop_inv_def)
  next
    case (Raised e)
    with inv obtain k rest where "drop (length (ls_printed t)) ks = k # rest"
      and "take (length (ls_printed t)) ks = ls_printed t" and "process_step grid bf name d k = Inl e"
      by (auto simp: loop_inv_def split: list.splits)
    then have "ks = ls_printed t @ k # rest \<and> process_step grid bf name d k = Inl e"
      by (metis append_take_drop_id)
    with Raised show ?thesis by auto
  qed
qed

lemma one_record_step:
  "process_step [1, 1, 1] one_record_file river_leakage (id_dict_spec 1 1 1) (0, 0) =
   Inr \<lparr>nd_shape = [1, 1, 1], nd_data = [1]\<rparr>"
  using accumulate_zeros [of 1 1 1 "[(0, 1)]"]
  by (simp add: one_record_file_def process_step_def read_step_def np_array_first_def in_range_def)

lemma one_record_reach:
  "(loop_step [1, 1, 1] one_record_file river_leakage (id_dict_spec 1 1 1))\<^sup>*\<^sup>* (loop_init [(0, 0)])
     \<lparr>ls_pending = [], ls_rivflx = [\<lparr>nd_shape = [1, 1, 1], nd_data = [1]\<rparr>], ls_printed = [(0, 0)], ls_status = Running\<rparr>"
proof -
  have "loop_step [1, 1, 1] one_record_file river_leakage (id_dict_spec 1 1 1) (loop_init [(0, 0)])
     \<lparr>ls_pending = [], ls_rivflx = [\<lparr>nd_shape = [1, 1, 1], nd_data = [1]\<rparr>], ls_printed = [(0, 0)], ls_status = Running\<rparr>"
    using loop_step.step_ok [of "loop_init [(0, 0)]", OF _ _ one_record_step] by (simp add: loop_init_def)
  then show ?thesis by (rule r_into_rtranclp)
qed

theorem loop_prints_in_order_witness:
  "(loop_step [1, 1, 1] one_record_file river_leakage (id_dict_spec 1 1 1))\<^sup>*\<^sup>* (loop_init [(0, 0)])
     \<lparr>ls_pending = [], ls_rivflx = [\<lparr>nd_shape = [1, 1, 1], nd_data = [1]\<rparr>], ls_printed = [(0, 0)], ls_status = Running\<rparr> \<and>
   loop_final \<lparr>ls_pending = [], ls_rivflx = [\<lparr>nd_shape = [1, 1, 1], nd_data = [1]\<rparr>], ls_printed = [(0, 0)], ls_status = Running\<rparr> \<and>
   list_all2 (\<lambda>k v. process_step [1, 1, 1] one_record_file river_leakage (id_dict_spec 1 1 1) k = Inr v)
     [(0, 0)] [\<lparr>nd_shape = [1, 1, 1], nd_data = [1]\<rparr>]"
proof -
  have f: "loop_final \<lparr>ls_pending = [], ls_rivflx = [\<lparr>nd_shape = [1, 1, 1], nd_data = [1 :: real]\<rparr>],
                        ls_printed = [(0 :: nat, 0 :: nat)], ls_status = Running\<rparr>"
    by (simp add: loop_final_def)
  from loop_prints_in_order [OF one_record_reach f] one_record_reach f show ?thesis by simp
qed

end
