(* ===== verification/Spec2Isabelle.thy ===== *)
theory Spec2Isabelle
  imports Queries TimeLoop
begin

text \<open>
  \<^bold>\<open>A verification model of the MODFLOW budget post-processor.\<close>

  The program is one Python script, \<^verbatim>\<open>src/python/Post_process_MF_binary_output_4Ibraheem.py\<close>.
  It opens a MODFLOW cell-by-cell budget file with flopy (lines 12--19), builds a table
  \<open>id_dict\<close> from flat cell identifiers to \<open>(layer, row, column)\<close> of the
  \<open>(2, 102, 217)\<close> grid by searching a reshaped \<open>np.arange\<close> (lines 29--39), reads the
  records of the budget text \<open>'   RIVER LEAKAGE'\<close> for every stored time step and adds
  each record's flux into a zero volume of the grid (lines 42--67), stacks the volumes into
  the 4-d array \<open>rivflx\<close> (line 70) and queries it with numpy (lines 79--119): a layer sum
  followed by a time mean, the grand total, its conversion to acre-feet, the sum over the
  time slice \<open>[10:20)\<close> of layer 0 and its total, and a mask of the zero cells for
  plotting. The parts interact only through values: the table is an argument of the
  accumulation, the list of volumes an argument of the stacking, the stacked array the
  argument of every query.

  \<^bold>\<open>Theories and what they model.\<close>
  \<^item> \<open>Prelude\<close>: the Python exceptions as the datatype \<open>py_error\<close>, the bind \<open>ebind\<close>
    of the result sum \<open>py_error + 'a\<close> through which every statement is sequenced, Python's
    \<open>xs[i]\<close> (\<open>py_index\<close>) and \<open>d[k]\<close> (\<open>dict_get\<close>), the type names, and the
    generic lemmas on sums over index ranges and on \<open>list_all2\<close> that the other theories
    share.
  \<^item> \<open>NdArray\<close>: numpy's C-order arrays as the record \<open>'a ndarray\<close> of a shape and a
    flat buffer, and the numpy calls of the script (\<open>np_arange\<close>, \<open>np_reshape\<close>,
    \<open>np_eq\<close>, \<open>np_argwhere\<close>, \<open>np_zeros\<close>, \<open>nd_iadd\<close> for \<open>a[i] += v\<close>,
    \<open>np_stack\<close> for \<open>np.array(list)\<close>, \<open>np_sum\<close>, \<open>np_sum_axis\<close>,
    \<open>np_mean_axis\<close>, \<open>np_take_axis\<close>, \<open>np_slice0\<close>) with the exceptions numpy raises.
    Lemmas: the offset/unravel round trip, the C order of \<open>np.argwhere\<close>,
    well-formedness (\<open>nd_wf\<close>: buffer length = product of the shape) of every result,
    the grand total of a stack and of an update, and the elements of reductions and slices.
    These are the library the claims about the script are proved from; none is a claim.
  \<^item> \<open>CoordinateIndex\<close>: lines 29--39 (\<open>id_dict_loop\<close>, \<open>build_id_dict\<close>). The
    abstract specification is the spec's arithmetic \<open>resolve\<close>/\<open>flatten\<close>
    (\<open>id_dict_spec\<close>); the refinement lemma \<open>build_id_dict_refines\<close> says that the
    search-built table equals it on every grid. Claims: lookup (C1), round trip
    (C12), bijection (C13).
  \<^item> \<open>FluxAccumulator\<close>: lines 42--70 (\<open>accumulate\<close> for the record loop,
    \<open>read_step\<close> and \<open>process_step\<close> for one step, \<open>run_steps\<close> for the loop over
    \<open>get_kstpkper()\<close>, \<open>post_process\<close> for lines 29--70 on a grid \<open>(L, R, C)\<close>,
    \<open>rivflx_script\<close> on the script's grid). flopy's \<open>CellBudgetFile\<close> is the
    interface record \<open>budget_file\<close> of its two reads; every lemma holds for every such
    file. Claims: one step's volume is the histogram of its records (C3),
    conservation (C4), repeated cells add (C8),
    KeyError (C9), the first failing step ends the run
    (C10), the step order is kept (C14), a step
    without array fails (C23), only the first of several arrays
    counts (C24), the empty run (C25), the
    independence of the time steps (C11).
  \<^item> \<open>TimeLoop\<close>: lines 43--67 once more, as a small-step transition system
    (\<open>loop_state\<close>: pending keys, \<open>rivflx\<close>, keys whose progress message line 67 has
    printed, running or raised; \<open>loop_step\<close>: one iteration). Claim: the invariant
    proved by rule induction gives the printed keys and their order, on normal end and on
    an exception (C15).
  \<^item> \<open>Queries\<close>: lines 79--119 (\<open>all_time_2D\<close>, \<open>to_acre_ft\<close>, \<open>lay1_window\<close>,
    \<open>plot_mask\<close>, \<open>script_queries\<close>, \<open>run_script\<close> for the whole script). Claims:
    line 79 (C18) and line 111 (C19) cell by cell, the empty
    run fails at line 79 (C26), the shape of \<open>rivflx\<close>
    (C16). The spec's query layer (section 4.3) is modelled abstractly
    (\<open>flux_tensor\<close> reads an array as a function of \<open>(t, l, r, c)\<close>;
    \<open>spatial_sum\<close>, \<open>temporal_mean\<close>, \<open>temporal_sum\<close>, \<open>layer_of\<close>), and lines 79
    and 111 refine it on every well-formed array (C21). The plotting mask of
    lines 118--119 is NaN exactly where the time-total of a cell is zero, so it also hides
    river cells whose gains and losses cancel (C22).
  \<^item> This theory: the whole script on a budget file. Element \<open>[t, lay, row, col]\<close> of
    \<open>rivflx\<close> (C2); when the script completes (C5); its
    totals (C7) and the layer-0 window total (C20); the scenario
    of spec section 8 (C6); the shapes of the results (C17).

  \<^bold>\<open>Modelling choices.\<close> Python ints are \<open>int\<close> and array indices \<open>nat\<close>; the
  script's floats are \<open>real\<close>, so sums are exact and independent of the summation order.
  float64 addition is neither: the claims about totals and sums hold for exact arithmetic,
  and no claim is made whose content is the order-independence of a sum (in float64,
  adding 1e16, 1, -1e16 to one cell gives 0, and 1e16, -1e16, 1 gives 1). Every loop of the script walks a finite list (the cell list, the
  record array, the list of time steps) and is a structurally recursive \<open>fun\<close>: all
  loops terminate and no fuel or bound is needed. Exceptions are \<open>Inl\<close> values and end
  the script at the statement that raises them; numpy's NaN for the mean over an empty axis
  is the error \<open>EmptyMean\<close> and NaN in the plotting mask is \<open>None\<close>. The grid is a
  parameter \<open>(L, R, C)\<close> of the definitions, instantiated to \<open>(2, 102, 217)\<close> in
  \<open>rivflx_script\<close>, \<open>run_script\<close> and the concrete theorems; these are proved from the
  general lemmas, never by enumerating the 44268 cells.

  \<^bold>\<open>What modelling showed.\<close> A step in which the budget text is absent raises
  IndexError at \<open>np.array(riv_rawdat)[0]\<close> (C23), where the spec counts it as an
  all-zero step; a run with no stored step raises IndexError at line 79 (C25, C26), where
  the spec returns an empty tensor; an out-of-range identifier is a bare KeyError without
  step context (C9); identifiers are used as 0-based keys, so 1-based MODFLOW node
  numbers would shift every flux by one cell (C1); the window \<open>[10:20]\<close> of line 111
  counts stored time steps, not stress periods as the comment says (C20); a budget text absent from the
  whole archive is not a distinct error but the IndexError of an absent step
  (C23); of several record arrays for one step only the first
  is used, and arrays of different lengths raise ValueError (C24).

  \<^bold>\<open>Not modelled.\<close> flopy's binary reader (lines 16--19): an external library
  whose reading of the file is not code of this repository; the script uses two of its
  reads, which are the interface \<open>budget_file\<close>, and every theorem holds for every
  implementation of that interface. The file paths (lines 12--14) and the listing of record
  names (lines 18--19) have no effect on the computed values. The text of the progress
  message (only which keys it is printed for is modelled), the expression statements that
  only display a value (lines 73, 80, 81), and matplotlib (lines 120--121) are output only.
  What remains unmapped of the script is these lines, the imports and the comments.
\<close>

section \<open>Budget files of the examples\<close>

text \<open>
  The scenario of spec section 8 on the script's grid: three stored steps; step \<open>(0, 1)\<close>
  has the record \<open>(0, 10.0)\<close>, step \<open>(0, 2)\<close> the records \<open>(217, 5.0)\<close> and
  \<open>(217, -2.0)\<close>, and step \<open>(0, 0)\<close> returns the arrays \<open>step0\<close>: \<open>[[]]\<close> is one
  record array with no record, \<open>[]\<close> is no array at all (the text absent from that step).
\<close>

definition scenario_file :: "flux_record list list \<Rightarrow> budget_file" where
  "scenario_file step0 =
     \<lparr>bf_kstpkper = [(0, 0), (0, 1), (0, 2)],
      bf_get_data = (\<lambda>k text. if text \<noteq> river_leakage then Inr []
                              else if k = (0, 1) then Inr [[(0, 10)]]
                              else if k = (0, 2) then Inr [[(217, 5), (217, -2)]]
                              else Inr step0)\<rparr>"

text \<open>Twelve steps; step \<open>(i, 0)\<close> has \<open>i\<close> in cell 0 and 100 in cell 22134 = (1, 0, 0).\<close>

definition long_file :: budget_file where
  "long_file =
     \<lparr>bf_kstpkper = [(0, 0), (1, 0), (2, 0), (3, 0), (4, 0), (5, 0), (6, 0), (7, 0), (8, 0), (9, 0), (10, 0), (11, 0)],
      bf_get_data = (\<lambda>k text. Inr [[(0, real (fst k)), (22134, 100)]])\<rparr>"

text \<open>\<open>example_file\<close> with a different second step.\<close>

definition example_file_changed :: budget_file where
  "example_file_changed =
     \<lparr>bf_kstpkper = [(1, 1), (2, 1)],
      bf_get_data = (\<lambda>k t. if k = (1, 1) then Inr [[(0, 1), (1, 1)]] else Inr [[(1, 7)]])\<rparr>"

section \<open>The run as a whole\<close>

text \<open>
  C2. When every time step's record array has its cell identifiers in \<open>[0, L*R*C)\<close>,
  lines 29--70 produce the array of shape \<open>(T, L, R, C)\<close> whose element
  \<open>[t, lay, row, col]\<close> is the sum of the fluxes of the records of the \<open>t\<close>-th time
  step with \<open>cellID = lay*R*C + row*C + col\<close>: the whole run is the spec's
  accumulation algorithm (section 4.2), step by step in \<open>get_kstpkper()\<close> order.
\<close>

theorem rivflx_cells:
  assumes "list_all2 (\<lambda>k rs. read_step bf text k = Inr rs \<and> in_range (L * R * C) rs) (bf_kstpkper bf) rss"
    and "bf_kstpkper bf \<noteq> []"
  shows "\<exists>rivflx. post_process L R C bf text = Inr rivflx \<and> nd_shape rivflx = [length rss, L, R, C] \<and>
           (\<forall>t < length rss. \<forall>x. in_grid L R C x \<longrightarrow>
              nd_get rivflx (case x of (lay, row, col) \<Rightarrow> [t, lay, row, col]) = cell_flux (rss ! t) (flatten R C x))"
  using post_process_histograms_eq [OF assms] histogram_stack_get by auto

theorem rivflx_cells_witness:
  "list_all2 (\<lambda>k rs. read_step example_file river_leakage k = Inr rs \<and> in_range (1 * 1 * 2) rs)
     (bf_kstpkper example_file) [[(0, 1), (1, 1)], [(0, 1), (1, 2)]] \<and>
   bf_kstpkper example_file \<noteq> [] \<and>
   (\<exists>rivflx. post_process 1 1 2 example_file river_leakage = Inr rivflx \<and>
      nd_shape rivflx = [2, 1, 1, 2] \<and> nd_get rivflx [1, 0, 0, 1] = 2)"
proof -
  have h1: "list_all2 (\<lambda>k rs. read_step example_file river_leakage k = Inr rs \<and> in_range (1 * 1 * 2) rs)
     (bf_kstpkper example_file) [[(0, 1), (1, 1)], [(0, 1), (1, 2)]]"
    by (simp add: example_file_def read_step_def np_array_first_def in_range_def)
  have h2: "bf_kstpkper example_file \<noteq> []" by (simp add: example_file_def)
  obtain X where X: "post_process 1 1 2 example_file river_leakage = Inr X"
    and sh: "nd_shape X = [2, 1, 1, 2]"
    and el: "\<forall>t < 2. \<forall>x. in_grid 1 1 2 x \<longrightarrow>
               nd_get X (case x of (lay, row, col) \<Rightarrow> [t, lay, row, col]) =
               cell_flux ([[(0, 1), (1, 1)], [(0, 1), (1, 2)]] ! t) (flatten 1 2 x)"
    using rivflx_cells [OF h1 h2] by auto
  have "nd_get X [1, 0, 0, 1] = cell_flux [(0, 1), (1, 2)] 1"
    using el [rule_format, of 1 "(0, 0, 1)"] by (simp add: in_grid_def flatten_def)
  also have "\<dots> = 2" by (simp add: cell_flux_def)
  finally show ?thesis using h1 h2 X sh by blast
qed


section \<open>The whole script\<close>

lemma scenario_records:
  "list_all2 (\<lambda>k rs. read_step (scenario_file [[]]) river_leakage k = Inr rs \<and> in_range (2 * 102 * 217) rs)
     (bf_kstpkper (scenario_file [[]])) [[], [(0, 10)], [(217, 5), (217, -2)]]"
  by (simp add: scenario_file_def read_step_def np_array_first_def in_range_def)

lemma scenario_nonempty: "bf_kstpkper (scenario_file step0) \<noteq> []"
  by (simp add: scenario_file_def)

lemma long_file_records:
  "list_all2 (\<lambda>k rs. read_step long_file river_leakage k = Inr rs \<and> in_range (2 * 102 * 217) rs)
     (bf_kstpkper long_file) (map (\<lambda>k. [(0, real (fst k)), (22134, 100)]) (bf_kstpkper long_file))"
  by (simp add: long_file_def read_step_def np_array_first_def in_range_def)

text \<open>
  C5. The script runs to the end (lines 29--119 raise nothing) exactly when
  \<open>get_kstpkper()\<close> is not empty and every step's \<open>get_data\<close> yields a first record array
  whose cell identifiers all lie in \<open>[0, 2*102*217)\<close>.
\<close>

theorem run_script_succeeds:
  "(\<exists>out. run_script bf = Inr out) \<longleftrightarrow>
   bf_kstpkper bf \<noteq> [] \<and>
   (\<exists>rss. list_all2 (\<lambda>k rs. read_step bf river_leakage k = Inr rs \<and> in_range (2 * 102 * 217) rs) (bf_kstpkper bf) rss)"
proof
  assume "\<exists>out. run_script bf = Inr out"
  then obtain out where "run_script bf = Inr out" by blast
  then obtain X where "post_process 2 102 217 bf river_leakage = Inr X" and "bf_kstpkper bf \<noteq> []"
    by (rule run_script_Inr_post_process)
  with post_process_records show "bf_kstpkper bf \<noteq> [] \<and>
   (\<exists>rss. list_all2 (\<lambda>k rs. read_step bf river_leakage k = Inr rs \<and> in_range (2 * 102 * 217) rs) (bf_kstpkper bf) rss)"
    by blast
next
  assume "bf_kstpkper bf \<noteq> [] \<and>
   (\<exists>rss. list_all2 (\<lambda>k rs. read_step bf river_leakage k = Inr rs \<and> in_range (2 * 102 * 217) rs) (bf_kstpkper bf) rss)"
  then show "\<exists>out. run_script bf = Inr out" using run_script_Inr_records by blast
qed

theorem run_script_succeeds_witness:
  "(\<exists>out. run_script example_file = Inr out) \<and> bf_kstpkper example_file \<noteq> [] \<and>
   (\<exists>rss. list_all2 (\<lambda>k rs. read_step example_file river_leakage k = Inr rs \<and> in_range (2 * 102 * 217) rs)
      (bf_kstpkper example_file) rss)"
proof -
  have ne: "bf_kstpkper example_file \<noteq> []" by (simp add: example_file_def)
  then have "bf_kstpkper example_file \<noteq> [] \<and>
   (\<exists>rss. list_all2 (\<lambda>k rs. read_step example_file river_leakage k = Inr rs \<and> in_range (2 * 102 * 217) rs)
      (bf_kstpkper example_file) rss)" using example_file_records by blast
  with run_script_succeeds [of example_file] show ?thesis by blast
qed

text \<open>
  C7. Mass balance of a completed run: \<open>rivflx.sum()\<close> (line 85) is the sum of the fluxes
  of all records of all time steps, and line 90 is that total times \<open>35.315 / 43560\<close>.
\<close>

theorem script_totals:
  assumes "run_script bf = Inr out"
  shows "\<exists>rss. list_all2 (\<lambda>k rs. read_step bf river_leakage k = Inr rs) (bf_kstpkper bf) rss \<and>
           rivflx_total out = sum_list (map (\<lambda>rs. sum_list (map snd rs)) rss) \<and>
           rivflx_total_acft out = sum_list (map (\<lambda>rs. sum_list (map snd rs)) rss) * 35.315 / 43560"
proof -
  obtain X where X: "post_process 2 102 217 bf river_leakage = Inr X" and q: "script_queries X = Inr out"
    using assms by (rule run_script_Inr_post_process)
  with post_process_sum_flux [OF X] script_queries_Inr(1,2) [OF q] show ?thesis
    by (auto simp: to_acre_ft_def)
qed

theorem script_totals_witness:
  "\<exists>out. run_script example_file = Inr out \<and> rivflx_total out = 5 \<and> rivflx_total_acft out = 5 * 35.315 / 43560"
proof -
  have ne: "bf_kstpkper example_file \<noteq> []" by (simp add: example_file_def)
  obtain out where out: "run_script example_file = Inr out"
    using run_script_Inr_records [OF ne example_file_records] by blast
  from script_totals [OF out] obtain rss where
    rd: "list_all2 (\<lambda>k rs. read_step example_file river_leakage k = Inr rs) (bf_kstpkper example_file) rss"
    and t: "rivflx_total out = sum_list (map (\<lambda>rs. sum_list (map snd rs)) rss)"
    and a: "rivflx_total_acft out = sum_list (map (\<lambda>rs. sum_list (map snd rs)) rss) * 35.315 / 43560"
    by blast
  from rd have "rss = [[(0, 1), (1, 1)], [(0, 1), (1, 2)]]"
    by (auto simp: example_file_def read_step_def np_array_first_def list_all2_Cons1)
  with out t a show ?thesis by auto
qed

text \<open>
  C20. Line 114, \<open>lay1_total_rivflx_10days.sum()\<close>, is the sum of the fluxes of the records
  of layer 0 (cell identifiers in \<open>[0, 102*217)\<close>) over the time steps
  \<open>rss[10:20]\<close>, the Python slice of the per-step record arrays.
\<close>

theorem lay1_total_records:
  assumes "run_script bf = Inr out"
  shows "\<exists>rss. list_all2 (\<lambda>k rs. read_step bf river_leakage k = Inr rs) (bf_kstpkper bf) rss \<and>
           lay1_total_10days_sum out =
             sum_list (map (\<lambda>rs. sum_list (map snd (filter (\<lambda>r. 0 \<le> fst r \<and> fst r < 102 * 217) rs)))
               (drop 10 (take 20 rss)))"
proof -
  obtain X where X: "post_process 2 102 217 bf river_leakage = Inr X" and q: "script_queries X = Inr out"
    and ne: "bf_kstpkper bf \<noteq> []"
    using assms by (rule run_script_Inr_post_process)
  obtain rss where rr: "list_all2 (\<lambda>k rs. read_step bf river_leakage k = Inr rs \<and> in_range (2 * 102 * 217) rs)
      (bf_kstpkper bf) rss"
    using post_process_records [OF X] by blast
  have XH: "X = \<lparr>nd_shape = [length rss, 2, 102, 217],
                 nd_data = concat (map (\<lambda>rs. map (cell_flux rs) [0..<2 * 102 * 217]) rss)\<rparr>"
    using post_process_histograms_eq [OF rr ne] X by simp
  have "rss \<noteq> []" using rr ne by (auto simp: list_all2_Nil2)
  then obtain lay1 where l: "lay1_window X = Inr lay1"
    and s: "np_sum lay1 = sum_list (map (\<lambda>rs. sum_list (map snd (filter (\<lambda>r. 0 \<le> fst r \<and> fst r < int (102 * 217)) rs)))
                           (drop 10 (take 20 rss)))"
    using lay1_window_histograms [of rss 2 102 217] XH by auto
  have "lay1_total_10days_sum out = np_sum lay1" using script_queries_Inr(3) [OF q] l by auto
  moreover have "list_all2 (\<lambda>k rs. read_step bf river_leakage k = Inr rs) (bf_kstpkper bf) rss"
    using rr by (rule list_all2_mono) simp
  ultimately show ?thesis using s by auto
qed

theorem lay1_total_records_witness:
  "\<exists>out. run_script long_file = Inr out \<and> lay1_total_10days_sum out = 21"
proof -
  have ne: "bf_kstpkper long_file \<noteq> []" by (simp add: long_file_def)
  obtain out where out: "run_script long_file = Inr out"
    using run_script_Inr_records [OF ne long_file_records] by blast
  from lay1_total_records [OF out] obtain rss where
    rd: "list_all2 (\<lambda>k rs. read_step long_file river_leakage k = Inr rs) (bf_kstpkper long_file) rss"
    and s: "lay1_total_10days_sum out =
             sum_list (map (\<lambda>rs. sum_list (map snd (filter (\<lambda>r. 0 \<le> fst r \<and> fst r < 102 * 217) rs)))
               (drop 10 (take 20 rss)))"
    by blast
  from rd have "rss = map (\<lambda>k. [(0, real (fst k)), (22134, 100)]) (bf_kstpkper long_file)"
    by (auto simp: long_file_def read_step_def np_array_first_def list_all2_Cons1)
  with s out show ?thesis by (simp add: long_file_def)
qed

text \<open>
  C6. The scenario of spec section 8 on the grid \<open>(2, 102, 217)\<close>: when step 0 has a record
  array with no record, its volume is all zero, \<open>rivflx[1, 0, 0, 0] = 10\<close>,
  \<open>rivflx[2, 0, 1, 0] = 3\<close> (217 is row 1, column 0), the grand total is 13 and its
  conversion is \<open>13 * 35.315 / 43560\<close> acre-feet.
\<close>

theorem spec_scenario:
  "\<exists>X out. rivflx_script (scenario_file [[]]) = Inr X \<and> nd_shape X = [3, 2, 102, 217] \<and>
     take (2 * 102 * 217) (nd_data X) = replicate (2 * 102 * 217) 0 \<and>
     nd_get X [1, 0, 0, 0] = 10 \<and> nd_get X [2, 0, 1, 0] = 3 \<and>
     run_script (scenario_file [[]]) = Inr out \<and> rivflx_total out = 13 \<and>
     rivflx_total_acft out = 13 * 35.315 / 43560"
proof -
  let ?rss = "[[], [(0, 10)], [(217, 5), (217, -2)]] :: flux_record list list"
  let ?X = "\<lparr>nd_shape = [length ?rss, 2, 102, 217],
             nd_data = concat (map (\<lambda>rs. map (cell_flux rs) [0..<2 * 102 * 217]) ?rss)\<rparr>"
  have X: "post_process 2 102 217 (scenario_file [[]]) river_leakage = Inr ?X"
    by (rule post_process_histograms_eq [OF scenario_records scenario_nonempty])
  have g1: "nd_get ?X [1, 0, 0, 0] = 10"
    using histogram_stack_get [of 1 ?rss 2 102 217 "(0, 0, 0)"] by (simp add: in_grid_def flatten_def)
  have g2: "nd_get ?X [2, 0, 1, 0] = 3"
    using histogram_stack_get [of 2 ?rss 2 102 217 "(0, 1, 0)"] by (simp add: in_grid_def flatten_def)
  have z: "take (2 * 102 * 217) (nd_data ?X) = replicate (2 * 102 * 217) 0"
  proof -
    have "cell_flux [] = (\<lambda>i. 0)" by (rule ext) simp
    then show ?thesis by (simp add: map_replicate_const)
  qed
  obtain out where out: "run_script (scenario_file [[]]) = Inr out"
    using run_script_Inr_records [OF scenario_nonempty scenario_records] by blast
  then obtain X' where X': "post_process 2 102 217 (scenario_file [[]]) river_leakage = Inr X'"
    and q: "script_queries X' = Inr out" by (rule run_script_Inr_post_process)
  from X X' have XX: "X' = ?X" by simp
  obtain rss where rd: "list_all2 (\<lambda>k rs. read_step (scenario_file [[]]) river_leakage k = Inr rs)
      (bf_kstpkper (scenario_file [[]])) rss" and s: "np_sum ?X = sum_list (map (\<lambda>rs. sum_list (map snd rs)) rss)"
    using post_process_sum_flux [OF X] by blast
  from rd have "rss = ?rss"
    by (auto simp: scenario_file_def read_step_def np_array_first_def list_all2_Cons1)
  with s have tot: "np_sum ?X = 13" by simp
  have "rivflx_total out = 13" and "rivflx_total_acft out = 13 * 35.315 / 43560"
    using script_queries_Inr(1,2) [OF q] tot by (simp_all add: XX to_acre_ft_def)
  with X g1 g2 z out show ?thesis by (auto simp: rivflx_script_def)
qed

text \<open>
  C17. The shapes of the script's results: when the script completes, the map of line 79,
  the window sum of line 111 and the plotting copy of lines 118--119 are well-formed
  arrays of shape \<open>(102, 217)\<close>.
\<close>

theorem run_script_shapes:
  assumes "run_script bf = Inr out"
  shows "nd_shape (rivflx_2D_all_time out) = [102, 217] \<and> nd_wf (rivflx_2D_all_time out) \<and>
         nd_shape (lay1_total_rivflx_10days out) = [102, 217] \<and> nd_wf (lay1_total_rivflx_10days out) \<and>
         nd_shape (rivflx_2D_all_time_plt out) = [102, 217] \<and> nd_wf (rivflx_2D_all_time_plt out)"
proof -
  obtain X where X: "post_process 2 102 217 bf river_leakage = Inr X" and q: "script_queries X = Inr out"
    and ne: "bf_kstpkper bf \<noteq> []"
    using assms by (rule run_script_Inr_post_process)
  obtain vs where gv: "grid_volumes 2 102 217 vs" and st: "np_stack vs = Inr X"
    using X ne by (rule post_process_grid_volumes)
  obtain lay1 where l: "lay1_window X = Inr lay1" and l1: "lay1_total_rivflx_10days out = lay1"
    using script_queries_Inr(3) [OF q] by blast
  obtain a2d where a: "all_time_2D X = Inr a2d" and a1: "rivflx_2D_all_time out = a2d"
    and a2: "rivflx_2D_all_time_plt out = plot_mask a2d"
    using script_queries_Inr(4) [OF q] by blast
  have "nd_shape a2d = [102, 217] \<and> nd_wf a2d"
    using all_time_2D_stack [OF gv st] a by (simp add: nd_wf_def)
  moreover have "nd_shape lay1 = [102, 217] \<and> nd_wf lay1"
    using lay1_window_stack [OF gv st] l by (simp add: nd_wf_def)
  ultimately show ?thesis using a1 a2 l1 by (simp add: plot_mask_def nd_wf_def)
qed

theorem run_script_shapes_witness:
  "\<exists>out. run_script example_file = Inr out \<and>
     nd_shape (rivflx_2D_all_time out) = [102, 217] \<and> nd_wf (rivflx_2D_all_time out) \<and>
     nd_shape (lay1_total_rivflx_10days out) = [102, 217] \<and> nd_wf (lay1_total_rivflx_10days out) \<and>
     nd_shape (rivflx_2D_all_time_plt out) = [102, 217] \<and> nd_wf (rivflx_2D_all_time_plt out)"
proof -
  have ne: "bf_kstpkper example_file \<noteq> []" by (simp add: example_file_def)
  obtain out where out: "run_script example_file = Inr out"
    using run_script_Inr_records [OF ne example_file_records] by blast
  with run_script_shapes [OF out] show ?thesis by blast
qed

lemma example_file_changed_run:
  "post_process 1 1 2 example_file_changed river_leakage = Inr \<lparr>nd_shape = [2, 1, 1, 2], nd_data = [1, 1, 0, 7]\<rparr>"
proof -
  have "list_all2 (\<lambda>k rs. read_step example_file_changed river_leakage k = Inr rs \<and> in_range (1 * 1 * 2) rs)
          (bf_kstpkper example_file_changed) [[(0, 1), (1, 1)], [(1, 7)]]"
    by (simp add: example_file_changed_def read_step_def np_array_first_def in_range_def)
  from post_process_histograms_eq [OF this] show ?thesis
    by (simp add: example_file_changed_def upt_rec)
qed

theorem step_independence_witness:
  "post_process 1 1 2 example_file river_leakage = Inr \<lparr>nd_shape = [2, 1, 1, 2], nd_data = [1, 1, 1, 2]\<rparr> \<and>
   post_process 1 1 2 example_file_changed river_leakage = Inr \<lparr>nd_shape = [2, 1, 1, 2], nd_data = [1, 1, 0, 7]\<rparr> \<and>
   bf_kstpkper example_file_changed = bf_kstpkper example_file \<and> (0::nat) < length (bf_kstpkper example_file) \<and>
   bf_get_data example_file_changed (bf_kstpkper example_file ! 0) river_leakage =
     bf_get_data example_file (bf_kstpkper example_file ! 0) river_leakage \<and>
   np_take_axis \<lparr>nd_shape = [2, 1, 1, 2], nd_data = [1, 1, 0, 7 :: real]\<rparr> 0 0 =
     np_take_axis \<lparr>nd_shape = [2, 1, 1, 2], nd_data = [1, 1, 1, 2 :: real]\<rparr> 0 0"
proof -
  have ks: "bf_kstpkper example_file_changed = bf_kstpkper example_file"
    by (simp add: example_file_def example_file_changed_def)
  have t: "(0::nat) < length (bf_kstpkper example_file)" by (simp add: example_file_def)
  have d: "bf_get_data example_file_changed (bf_kstpkper example_file ! 0) river_leakage =
     bf_get_data example_file (bf_kstpkper example_file ! 0) river_leakage"
    by (simp add: example_file_def example_file_changed_def)
  from step_independence [OF example_file_run example_file_changed_run ks t d] example_file_run
    example_file_changed_run ks t d
  show ?thesis by simp
qed

end
